theory Spec2Isabelle
  imports Complex_Main
begin

section \<open>Rope-and-pulley physics engine\<close>

text \<open>
  A shallow embedding of \<^verbatim>\<open>src/services/physicsEngine.ts\<close> with the types of
  \<^verbatim>\<open>src/types.ts\<close> and the constants of the constants module.

  Numbers: the source computes with JavaScript doubles; the embedding computes with exact
  reals, so it leaves rounding and overflow out. \<open>Math.abs\<close> is \<open>abs\<close>, \<open>Math.sign\<close> is \<open>sgn\<close>, and
  \<open>v || d\<close> on a number is \<open>d\<close> when \<open>v\<close> is zero (or absent) and \<open>v\<close> otherwise.

  A quotient with denominator zero is 0 in HOL and an infinity or \<open>NaN\<close> in the source. The
  controls keep every mass and the pulley radius at 0.1 or more, but the types admit zero.
  For the Atwood step, whose quotients have no floor, a second embedding
  \<open>updateAtwoodPhysicsJS\<close> computes with the infinities and \<open>NaN\<close>; it agrees with
  \<open>updateAtwoodPhysics\<close> wherever the denominators are not zero.
\<close>

subsection \<open>Constants\<close>

definition GRAVITY :: real where
  "GRAVITY = 9.81"

definition FRICTION_SCALE :: real where
  "FRICTION_SCALE = 0.4"

definition AIR_RESISTANCE_SCALE :: real where
  "AIR_RESISTANCE_SCALE = 3.0"

definition METERS_TO_PIXELS :: real where
  "METERS_TO_PIXELS = 100"

subsection \<open>Types\<close>

datatype RealityMode = IDEAL | REAL

datatype RopeKind = Direct | PulleyRope

datatype InteractionMode = Select | RopeDirectMode | RopePulleyMode

datatype BuilderStep = Idle | SelectFirst | SelectSecond | SelectPulley

text \<open>
  Field names carry the prefix of their interface where the source's name (\<open>id\<close>, \<open>x\<close>, \<open>y\<close>,
  \<open>type\<close>, \<open>step\<close>) is a HOL constant, a keyword or a usual variable name. An optional
  field (\<open>vx?\<close>, \<open>fromSide?\<close>, \<open>toSide?\<close>) and a nullable one are options.
\<close>

record LoadObject =
  l_id :: string
  l_mass :: real
  l_color :: string
  l_x :: real
  l_y :: real
  l_vx :: real
  l_vy :: real

record Pulley =
  p_id :: string
  p_x :: real
  p_y :: real
  p_radius :: real
  p_vx :: "real option"

record Anchor =
  a_id :: string
  a_x :: real
  a_y :: real

record RopeSegment =
  r_id :: string
  fromId :: string
  toId :: string
  r_type :: RopeKind
  fromSide :: "real option"
  toSide :: "real option"

record RopeBuilderState =
  b_step :: BuilderStep
  firstId :: "string option"
  secondId :: "string option"

record SandboxState =
  fixedPulleys :: "Pulley list"
  movablePulleys :: "Pulley list"
  loads :: "LoadObject list"
  anchors :: "Anchor list"
  effortForce :: real
  friction :: real
  ropeMaxTension :: real
  airResistance :: real
  isBroken :: bool
  interactionMode :: InteractionMode
  ropeSegments :: "RopeSegment list"
  ropeBuilderState :: RopeBuilderState
  ropeConnectionStartId :: "string option"
  loadPosition :: real
  loadVelocity :: real
  isDragging :: bool
  selectedId :: "string option"

text \<open>
  \<open>AtwoodState\<close> shares \<open>ropeMaxTension\<close>, \<open>airResistance\<close> and \<open>isBroken\<close> with \<open>SandboxState\<close>;
  it is declared last, so the plain names are its fields and those of \<open>SandboxState\<close> are
  written \<open>SandboxState.isBroken\<close>.
\<close>

record AtwoodState =
  mass1 :: real
  mass2 :: real
  pulleyMass :: real
  pulleyRadius :: real
  frictionCoeff :: real
  totalRopeLength :: real
  initialY1 :: real
  initialY2 :: real
  ropeMaxTension :: real
  airResistance :: real
  isBroken :: bool
  y1 :: real
  y2 :: real
  velocity :: real
  angularVelocity :: real
  acceleration :: real
  tension1 :: real
  tension2 :: real
  time :: real

subsection \<open>The Atwood machine: \<open>updateAtwoodPhysics\<close>\<close>

text \<open>
  The locals of the intact branch, each as a function of the input state, in the order of
  the source.
\<close>

definition ropeLen :: "AtwoodState \<Rightarrow> real" where
  "ropeLen s = (if totalRopeLength s = 0 then 5.0 else totalRopeLength s)"

definition effectivePulleyInertiaMass :: "AtwoodState \<Rightarrow> real" where
  "effectivePulleyInertiaMass s = 0.5 * pulleyMass s"

definition drivingForce :: "AtwoodState \<Rightarrow> real" where
  "drivingForce s = (mass2 s - mass1 s) * GRAVITY"

definition isBalanced :: "AtwoodState \<Rightarrow> bool" where
  "isBalanced s = (\<bar>mass2 s - mass1 s\<bar> < 0.001)"

definition centeringForce :: "AtwoodState \<Rightarrow> real" where
  "centeringForce s =
     (if isBalanced s
      then - (ropeLen s / 2 - y1 s) * (mass1 s + mass2 s) * 5.0
      else 0)"

definition frictionForce :: "AtwoodState \<Rightarrow> real" where
  "frictionForce s =
     (if frictionCoeff s > 0
      then frictionCoeff s * (mass1 s + mass2 s) * GRAVITY * FRICTION_SCALE
      else 0)"

text \<open>\<open>netForce\<close> after the friction block and the air-resistance block.\<close>

definition netForce :: "AtwoodState \<Rightarrow> RealityMode \<Rightarrow> real" where
  "netForce s mode =
     (let nf0 = drivingForce s + centeringForce s;
          nf1 = (if \<bar>velocity s\<bar> > 0.001
                 then nf0 - sgn (velocity s) * frictionForce s
                 else if \<bar>nf0\<bar> \<le> frictionForce s then 0
                 else nf0 - sgn nf0 * frictionForce s)
      in if mode = REAL \<and> \<bar>velocity s\<bar> > 0.001
         then nf1 - sgn (velocity s)
                * ((airResistance s * AIR_RESISTANCE_SCALE) * (velocity s * velocity s))
         else nf1)"

definition totalInertialMass :: "AtwoodState \<Rightarrow> real" where
  "totalInertialMass s = mass1 s + mass2 s + effectivePulleyInertiaMass s"

text \<open>
  The zero-crossing test that resets velocity and acceleration. The quotient
  \<open>netForce / totalInertialMass\<close> here and below is the quotient of the source where
  \<open>totalInertialMass\<close> is not zero; \<open>updateAtwoodPhysicsJS\<close> has it where it is zero.
\<close>

definition stiction :: "AtwoodState \<Rightarrow> real \<Rightarrow> RealityMode \<Rightarrow> bool" where
  "stiction s dt mode =
     (let newVelocity = velocity s + (netForce s mode / totalInertialMass s) * dt
      in \<bar>velocity s\<bar> > 0.001 \<and> sgn newVelocity \<noteq> sgn (velocity s)
         \<and> \<bar>netForce s mode\<bar> \<le> frictionForce s)"

definition stepAcceleration :: "AtwoodState \<Rightarrow> real \<Rightarrow> RealityMode \<Rightarrow> real" where
  "stepAcceleration s dt mode =
     (if stiction s dt mode then 0 else netForce s mode / totalInertialMass s)"

text \<open>\<open>newVelocity\<close> after the stiction check and the centering damping.\<close>

definition stepVelocity :: "AtwoodState \<Rightarrow> real \<Rightarrow> RealityMode \<Rightarrow> real" where
  "stepVelocity s dt mode =
     (let v = (if stiction s dt mode then 0
               else velocity s + (netForce s mode / totalInertialMass s) * dt)
      in if isBalanced s then v * 0.90 else v)"

text \<open>The free-fall velocities of the broken branch.\<close>

definition brokenV1 :: "AtwoodState \<Rightarrow> real \<Rightarrow> RealityMode \<Rightarrow> real" where
  "brokenV1 s dt mode =
     (let v1 = velocity s + GRAVITY * dt
      in if mode = REAL
         then v1 - ((0.5 * airResistance s * (v1 * v1) * AIR_RESISTANCE_SCALE) / mass1 s) * dt
         else v1)"

definition brokenV2 :: "AtwoodState \<Rightarrow> real \<Rightarrow> RealityMode \<Rightarrow> real" where
  "brokenV2 s dt mode =
     (let v1 = velocity s + GRAVITY * dt;
          v2 = velocity s + GRAVITY * dt
      in if mode = REAL
         then v2 - ((0.5 * airResistance s * (v1 * v1) * AIR_RESISTANCE_SCALE) / mass2 s) * dt
         else v2)"

definition updateAtwoodPhysics :: "AtwoodState \<Rightarrow> real \<Rightarrow> RealityMode \<Rightarrow> AtwoodState" where
  "updateAtwoodPhysics s dt mode =
     (if isBroken s then
        (let newY1 = y1 s + brokenV1 s dt mode * dt * 0.5;
             newY2 = y2 s + brokenV2 s dt mode * dt * 0.5
         in s\<lparr>y1 := (if newY1 > 4.5 then 4.5 else newY1),
              y2 := (if newY2 > 4.5 then 4.5 else newY2),
              tension1 := 0, tension2 := 0, velocity := 0, acceleration := 0\<rparr>)
      else
        (let acc = stepAcceleration s dt mode;
             newVelocity = stepVelocity s dt mode;
             newY1 = y1 s - newVelocity * dt
         in if newY1 < 0.2 then
              s\<lparr>velocity := 0, acceleration := 0, y1 := 0.2, y2 := ropeLen s - 0.2\<rparr>
            else if newY1 > ropeLen s - 0.2 then
              s\<lparr>velocity := 0, acceleration := 0, y1 := ropeLen s - 0.2, y2 := 0.2\<rparr>
            else
              (let t1 = mass1 s * (GRAVITY + acc);
                   t2 = mass2 s * (GRAVITY - acc)
               in s\<lparr>y1 := newY1, y2 := ropeLen s - newY1, velocity := newVelocity,
                    acceleration := acc, tension1 := t1, tension2 := t2,
                    angularVelocity := newVelocity / pulleyRadius s,
                    isBroken := (mode = REAL
                                 \<and> (t1 > ropeMaxTension s \<or> t2 > ropeMaxTension s)),
                    time := time s + dt\<rparr>)))"

text \<open>The tick on which the position clamp fires.\<close>

definition clampFires :: "AtwoodState \<Rightarrow> real \<Rightarrow> RealityMode \<Rightarrow> bool" where
  "clampFires s dt mode =
     (let newY1 = y1 s - stepVelocity s dt mode * dt
      in newY1 < 0.2 \<or> newY1 > ropeLen s - 0.2)"

text \<open>A sequence of calls, each on the state the previous one returned.\<close>

fun runAtwood :: "AtwoodState \<Rightarrow> (real \<times> RealityMode) list \<Rightarrow> AtwoodState list" where
  "runAtwood s [] = []"
| "runAtwood s ((dt, mode) # steps) =
     updateAtwoodPhysics s dt mode # runAtwood (updateAtwoodPhysics s dt mode) steps"

text \<open>\<^verbatim>\<open>INITIAL_ATWOOD\<close> of \<^verbatim>\<open>src/App.tsx\<close>; its masses and friction are those of scenario A.\<close>

definition INITIAL_ATWOOD :: AtwoodState where
  "INITIAL_ATWOOD = \<lparr>mass1 = 2, mass2 = 3, pulleyMass = 1, pulleyRadius = 0.2,
     frictionCoeff = 0, totalRopeLength = 5.0, initialY1 = 2.0, initialY2 = 3.0,
     ropeMaxTension = 50, airResistance = 0.1, isBroken = False, y1 = 2.0, y2 = 3.0,
     velocity = 0, angularVelocity = 0, acceleration = 0, tension1 = 0, tension2 = 0,
     time = 0\<rparr>"

subsection \<open>The Atwood step with infinities and \<open>NaN\<close>\<close>

text \<open>
  A JavaScript number that is a real, an infinity or \<open>NaN\<close>. The two zeros are one, and a
  zero denominator is \<open>+0\<close>: the sums and products of the step give \<open>-0\<close> only from operands
  that are \<open>-0\<close>.
\<close>

datatype jsnum = Fin real | PosInf | NegInf | NaN

fun infOfSign :: "real \<Rightarrow> jsnum" where
  "infOfSign x = (if x > 0 then PosInf else if x < 0 then NegInf else NaN)"

fun signOf :: "jsnum \<Rightarrow> real" where
  "signOf (Fin x) = sgn x"
| "signOf PosInf = 1"
| "signOf NegInf = - 1"
| "signOf NaN = 0"

fun jadd :: "jsnum \<Rightarrow> jsnum \<Rightarrow> jsnum" where
  "jadd (Fin x) (Fin y) = Fin (x + y)"
| "jadd NaN b = NaN"
| "jadd a NaN = NaN"
| "jadd PosInf NegInf = NaN"
| "jadd NegInf PosInf = NaN"
| "jadd PosInf b = PosInf"
| "jadd a PosInf = PosInf"
| "jadd NegInf b = NegInf"
| "jadd a NegInf = NegInf"

fun jneg :: "jsnum \<Rightarrow> jsnum" where
  "jneg (Fin x) = Fin (- x)"
| "jneg PosInf = NegInf"
| "jneg NegInf = PosInf"
| "jneg NaN = NaN"

definition jsub :: "jsnum \<Rightarrow> jsnum \<Rightarrow> jsnum" where
  "jsub a b = jadd a (jneg b)"

text \<open>An infinity times zero is \<open>NaN\<close>.\<close>

fun jmul :: "jsnum \<Rightarrow> jsnum \<Rightarrow> jsnum" where
  "jmul (Fin x) (Fin y) = Fin (x * y)"
| "jmul NaN b = NaN"
| "jmul a NaN = NaN"
| "jmul a b = infOfSign (signOf a * signOf b)"

text \<open>\<open>0 / 0\<close> is \<open>NaN\<close>, \<open>x / 0\<close> is the infinity of the sign of \<open>x\<close>.\<close>

fun jdiv :: "jsnum \<Rightarrow> jsnum \<Rightarrow> jsnum" where
  "jdiv (Fin x) (Fin y) = (if y = 0 then infOfSign x else Fin (x / y))"
| "jdiv NaN b = NaN"
| "jdiv a NaN = NaN"
| "jdiv (Fin x) b = Fin 0"
| "jdiv a (Fin y) = infOfSign (signOf a * (if y < 0 then - 1 else 1))"
| "jdiv a b = NaN"

text \<open>\<open>Math.sign\<close>.\<close>

fun jsign :: "jsnum \<Rightarrow> jsnum" where
  "jsign NaN = NaN"
| "jsign a = Fin (signOf a)"

text \<open>\<open><\<close>; \<open>a > b\<close> is \<open>jless b a\<close>. Every comparison with \<open>NaN\<close> is false.\<close>

fun jless :: "jsnum \<Rightarrow> jsnum \<Rightarrow> bool" where
  "jless (Fin x) (Fin y) = (x < y)"
| "jless NaN b = False"
| "jless a NaN = False"
| "jless a NegInf = False"
| "jless PosInf b = False"
| "jless a b = True"

text \<open>\<open>!==\<close>: \<open>NaN\<close> differs from every number, itself included.\<close>

definition jne :: "jsnum \<Rightarrow> jsnum \<Rightarrow> bool" where
  "jne a b = (a = NaN \<or> b = NaN \<or> a \<noteq> b)"

text \<open>
  The fields that \<open>updateAtwoodPhysics\<close> writes, as the numbers the source returns. The
  other fields of the returned state are those of the input state.
\<close>

record AtwoodNumbers =
  js_isBroken :: bool
  js_y1 :: jsnum
  js_y2 :: jsnum
  js_velocity :: jsnum
  js_angularVelocity :: jsnum
  js_acceleration :: jsnum
  js_tension1 :: jsnum
  js_tension2 :: jsnum
  js_time :: jsnum

definition numbersOf :: "AtwoodState \<Rightarrow> AtwoodNumbers" where
  "numbersOf s = \<lparr>js_isBroken = isBroken s, js_y1 = Fin (y1 s), js_y2 = Fin (y2 s),
     js_velocity = Fin (velocity s), js_angularVelocity = Fin (angularVelocity s),
     js_acceleration = Fin (acceleration s), js_tension1 = Fin (tension1 s),
     js_tension2 = Fin (tension2 s), js_time = Fin (time s)\<rparr>"

text \<open>
  The step on an input state and a \<open>dt\<close> that are finite. \<open>netForce\<close> and
  \<open>totalInertialMass\<close> are then finite; the first number that may not be is the quotient.
\<close>

definition stictionJS :: "AtwoodState \<Rightarrow> real \<Rightarrow> RealityMode \<Rightarrow> bool" where
  "stictionJS s dt mode =
     (let acc = jdiv (Fin (netForce s mode)) (Fin (totalInertialMass s));
          newVelocity = jadd (Fin (velocity s)) (jmul acc (Fin dt))
      in \<bar>velocity s\<bar> > 0.001 \<and> jne (jsign newVelocity) (jsign (Fin (velocity s)))
         \<and> \<bar>netForce s mode\<bar> \<le> frictionForce s)"

definition stepAccelerationJS :: "AtwoodState \<Rightarrow> real \<Rightarrow> RealityMode \<Rightarrow> jsnum" where
  "stepAccelerationJS s dt mode =
     (if stictionJS s dt mode then Fin 0
      else jdiv (Fin (netForce s mode)) (Fin (totalInertialMass s)))"

definition stepVelocityJS :: "AtwoodState \<Rightarrow> real \<Rightarrow> RealityMode \<Rightarrow> jsnum" where
  "stepVelocityJS s dt mode =
     (let v = (if stictionJS s dt mode then Fin 0
               else jadd (Fin (velocity s))
                      (jmul (jdiv (Fin (netForce s mode)) (Fin (totalInertialMass s))) (Fin dt)))
      in if isBalanced s then jmul v (Fin 0.90) else v)"

definition brokenV1JS :: "AtwoodState \<Rightarrow> real \<Rightarrow> RealityMode \<Rightarrow> jsnum" where
  "brokenV1JS s dt mode =
     (let v1 = velocity s + GRAVITY * dt
      in if mode = REAL
         then jsub (Fin v1)
                (jmul (jdiv (Fin (0.5 * airResistance s * (v1 * v1) * AIR_RESISTANCE_SCALE))
                         (Fin (mass1 s)))
                   (Fin dt))
         else Fin v1)"

definition brokenV2JS :: "AtwoodState \<Rightarrow> real \<Rightarrow> RealityMode \<Rightarrow> jsnum" where
  "brokenV2JS s dt mode =
     (let v1 = velocity s + GRAVITY * dt;
          v2 = velocity s + GRAVITY * dt
      in if mode = REAL
         then jsub (Fin v2)
                (jmul (jdiv (Fin (0.5 * airResistance s * (v1 * v1) * AIR_RESISTANCE_SCALE))
                         (Fin (mass2 s)))
                   (Fin dt))
         else Fin v2)"

definition updateAtwoodPhysicsJS :: "AtwoodState \<Rightarrow> real \<Rightarrow> RealityMode \<Rightarrow> AtwoodNumbers" where
  "updateAtwoodPhysicsJS s dt mode =
     (if isBroken s then
        (let newY1 = jadd (Fin (y1 s)) (jmul (jmul (brokenV1JS s dt mode) (Fin dt)) (Fin 0.5));
             newY2 = jadd (Fin (y2 s)) (jmul (jmul (brokenV2JS s dt mode) (Fin dt)) (Fin 0.5))
         in (numbersOf s)\<lparr>js_y1 := (if jless (Fin 4.5) newY1 then Fin 4.5 else newY1),
              js_y2 := (if jless (Fin 4.5) newY2 then Fin 4.5 else newY2),
              js_tension1 := Fin 0, js_tension2 := Fin 0, js_velocity := Fin 0,
              js_acceleration := Fin 0\<rparr>)
      else
        (let acc = stepAccelerationJS s dt mode;
             newVelocity = stepVelocityJS s dt mode;
             newY1 = jsub (Fin (y1 s)) (jmul newVelocity (Fin dt))
         in if jless newY1 (Fin 0.2) then
              (numbersOf s)\<lparr>js_velocity := Fin 0, js_acceleration := Fin 0, js_y1 := Fin 0.2,
                js_y2 := Fin (ropeLen s - 0.2)\<rparr>
            else if jless (Fin (ropeLen s - 0.2)) newY1 then
              (numbersOf s)\<lparr>js_velocity := Fin 0, js_acceleration := Fin 0,
                js_y1 := Fin (ropeLen s - 0.2), js_y2 := Fin 0.2\<rparr>
            else
              (let t1 = jmul (Fin (mass1 s)) (jadd (Fin GRAVITY) acc);
                   t2 = jmul (Fin (mass2 s)) (jsub (Fin GRAVITY) acc)
               in (numbersOf s)\<lparr>js_y1 := newY1, js_y2 := jsub (Fin (ropeLen s)) newY1,
                    js_velocity := newVelocity, js_acceleration := acc, js_tension1 := t1,
                    js_tension2 := t2,
                    js_angularVelocity := jdiv newVelocity (Fin (pulleyRadius s)),
                    js_isBroken := (mode = REAL
                                    \<and> (jless (Fin (ropeMaxTension s)) t1
                                       \<or> jless (Fin (ropeMaxTension s)) t2)),
                    js_time := Fin (time s + dt)\<rparr>)))"

subsection \<open>The sandbox: topology analysis\<close>

definition movableIds :: "SandboxState \<Rightarrow> string list" where
  "movableIds s = map p_id (movablePulleys s)"

definition fixedIds :: "SandboxState \<Rightarrow> string list" where
  "fixedIds s = map p_id (fixedPulleys s)"

definition anchorIds :: "SandboxState \<Rightarrow> string list" where
  "anchorIds s = map a_id (anchors s)"

definition isFixedOrAnchor :: "SandboxState \<Rightarrow> string \<Rightarrow> bool" where
  "isFixedOrAnchor s i = (i \<in> set (fixedIds s) \<or> i \<in> set (anchorIds s))"

definition isMovable :: "SandboxState \<Rightarrow> string \<Rightarrow> bool" where
  "isMovable s i = (i \<in> set (movableIds s))"

text \<open>
  \<open>findConnectedLoads\<close>. The body of \<open>forEach\<close> looks at one neighbour at a time: a neighbour
  that is neither visited nor on the boundary is added to \<open>visited\<close> and to the queue. The
  pair is \<open>(visited, queue)\<close>.
\<close>

definition visitNeighbor ::
  "(string \<Rightarrow> bool) \<Rightarrow> string \<Rightarrow> string set \<times> string list \<Rightarrow> string set \<times> string list" where
  "visitNeighbor boundaryCheck neighbor vq =
     (if neighbor \<notin> fst vq
      then (if \<not> boundaryCheck neighbor
            then (insert neighbor (fst vq), snd vq @ [neighbor])
            else vq)
      else vq)"

definition scanSegment ::
  "string \<Rightarrow> (string \<Rightarrow> bool) \<Rightarrow> string set \<times> string list \<Rightarrow> RopeSegment
     \<Rightarrow> string set \<times> string list" where
  "scanSegment currId boundaryCheck vq r =
     (let vq1 = (if fromId r = currId then visitNeighbor boundaryCheck (toId r) vq else vq)
      in if toId r = currId then visitNeighbor boundaryCheck (fromId r) vq1 else vq1)"

text \<open>
  \<open>result.includes(load)\<close> compares object identities; \<open>load\<close> is the first load with the
  dequeued id, so two such objects are the same object exactly when they are equal.
\<close>

definition pushLoad :: "LoadObject list \<Rightarrow> string \<Rightarrow> LoadObject list \<Rightarrow> LoadObject list" where
  "pushLoad ls currId result =
     (case find (\<lambda>l. l_id l = currId) ls of
        None \<Rightarrow> result
      | Some load \<Rightarrow> if load \<in> set result then result else result @ [load])"

text \<open>The \<open>while\<close> loop; a run that never leaves the loop is \<open>None\<close>.\<close>

partial_function (option) findConnectedLoads_loop ::
  "LoadObject list \<Rightarrow> RopeSegment list \<Rightarrow> (string \<Rightarrow> bool) \<Rightarrow> LoadObject list
     \<Rightarrow> string set \<Rightarrow> string list \<Rightarrow> LoadObject list option" where
  "findConnectedLoads_loop ls ropes boundaryCheck result visited queue =
     (case queue of
        [] \<Rightarrow> Some result
      | currId # rest \<Rightarrow>
          findConnectedLoads_loop ls ropes boundaryCheck (pushLoad ls currId result)
            (fst (foldl (scanSegment currId boundaryCheck) (visited, rest) ropes))
            (snd (foldl (scanSegment currId boundaryCheck) (visited, rest) ropes)))"

definition findConnectedLoads ::
  "SandboxState \<Rightarrow> string list \<Rightarrow> (string \<Rightarrow> bool) \<Rightarrow> LoadObject list option" where
  "findConnectedLoads s startIds boundaryCheck =
     findConnectedLoads_loop (loads s) (ropeSegments s) boundaryCheck [] (set startIds) startIds"

text \<open>
  \<open>getSide\<close>. The \<open>for\<close> loop over the ropes at \<open>cur\<close> either returns a side (\<open>Inl\<close>) or
  ends with the queue it has extended (\<open>Inr\<close>).
\<close>

fun scanRopes ::
  "string list \<Rightarrow> LoadObject list \<Rightarrow> string \<Rightarrow> RopeSegment list \<Rightarrow> string list
     \<Rightarrow> real + string list" where
  "scanRopes fids ls cur [] q = Inr q"
| "scanRopes fids ls cur (r # rs) q =
     (let other = (if fromId r = cur then toId r else fromId r)
      in if other \<in> set fids
         then (let isTo = (toId r = other);
                   side = (if isTo then toSide r else fromSide r)
               in case side of Some v \<Rightarrow> Inl v | None \<Rightarrow> Inl (- 1))
         else scanRopes fids ls cur rs
                (if other \<in> set (map l_id ls) then q @ [other] else q))"

partial_function (option) getSide_loop ::
  "SandboxState \<Rightarrow> string list \<Rightarrow> string set \<Rightarrow> real option" where
  "getSide_loop s q visited =
     (case q of
        [] \<Rightarrow> Some 0
      | cur # rest \<Rightarrow>
          if cur \<in> visited then getSide_loop s rest visited
          else (case scanRopes (fixedIds s) (loads s) cur
                       (filter (\<lambda>r. fromId r = cur \<or> toId r = cur) (ropeSegments s)) rest of
                  Inl side \<Rightarrow> Some side
                | Inr q' \<Rightarrow> getSide_loop s q' (insert cur visited)))"

definition getSide :: "SandboxState \<Rightarrow> string \<Rightarrow> real option" where
  "getSide s startLoadId = getSide_loop s [startLoadId] {}"

definition connectedLoads :: "SandboxState \<Rightarrow> LoadObject list" where
  "connectedLoads s =
     filter (\<lambda>l. list_ex (\<lambda>r. fromId r = l_id l \<or> toId r = l_id l) (ropeSegments s)) (loads s)"

text \<open>\<open>connectedLoads.forEach\<close>: the pair is \<open>(loadGroupA, loadGroupB)\<close>.\<close>

fun assignSides ::
  "SandboxState \<Rightarrow> LoadObject list \<Rightarrow> LoadObject list \<times> LoadObject list
     \<Rightarrow> (LoadObject list \<times> LoadObject list) option" where
  "assignSides s [] groups = Some groups"
| "assignSides s (l # ls) groups =
     (case getSide s (l_id l) of
        None \<Rightarrow> None
      | Some side \<Rightarrow>
          assignSides s ls
            (if side = - 1 \<or> side = 0 then (fst groups @ [l], snd groups)
             else if side = 1 then (fst groups, snd groups @ [l])
             else groups))"

text \<open>Step 1 of \<open>updateSandboxPhysics\<close>: \<open>(loadGroupA, loadGroupB)\<close>.\<close>

definition loadGroups :: "SandboxState \<Rightarrow> (LoadObject list \<times> LoadObject list) option" where
  "loadGroups s =
     (if length (movableIds s) > 0 then
        (case findConnectedLoads s (movableIds s) (isFixedOrAnchor s) of
           None \<Rightarrow> None
         | Some loadGroupA \<Rightarrow>
             (case findConnectedLoads s (fixedIds s @ anchorIds s) (isMovable s) of
                None \<Rightarrow> None
              | Some loadsConnectedToFixed \<Rightarrow>
                  Some (loadGroupA,
                        filter (\<lambda>l. l_id l \<notin> set (map l_id loadGroupA)) loadsConnectedToFixed)))
      else assignSides s (connectedLoads s) ([], []))"

subsection \<open>The sandbox: forces and acceleration\<close>

text \<open>
  The locals of step 2 of \<open>updateSandboxPhysics\<close>, as functions of the state, the mode and
  the two groups \<open>A = loadGroupA\<close> and \<open>B = loadGroupB\<close>.
\<close>

definition floorY :: real where
  "floorY = 550"

definition pulleyWeight :: "RealityMode \<Rightarrow> real" where
  "pulleyWeight mode = (if mode = IDEAL then 0 else 0.1)"

definition MassLoad :: "SandboxState \<Rightarrow> RealityMode \<Rightarrow> LoadObject list \<Rightarrow> real" where
  "MassLoad s mode A =
     sum_list (map l_mass A) + real (length (movablePulleys s)) * pulleyWeight mode"

definition MassCounter :: "LoadObject list \<Rightarrow> real" where
  "MassCounter B = sum_list (map l_mass B)"

definition estimatedMA :: "SandboxState \<Rightarrow> real" where
  "estimatedMA s =
     (if length (movablePulleys s) > 0 then 2 * real (length (movablePulleys s)) else 1)"

definition ForcePull :: "SandboxState \<Rightarrow> LoadObject list \<Rightarrow> real" where
  "ForcePull s B =
     (if MassCounter B > 0 then MassCounter B * GRAVITY
      else if length B = 0 then effortForce s
      else 0)"

definition MassPullInertia :: "LoadObject list \<Rightarrow> real" where
  "MassPullInertia B = (if MassCounter B > 0 then MassCounter B else 0)"

definition ForceLoad :: "SandboxState \<Rightarrow> RealityMode \<Rightarrow> LoadObject list \<Rightarrow> real" where
  "ForceLoad s mode A = MassLoad s mode A * GRAVITY"

definition totalWeight ::
  "SandboxState \<Rightarrow> RealityMode \<Rightarrow> LoadObject list \<Rightarrow> LoadObject list \<Rightarrow> real" where
  "totalWeight s mode A B = ForceLoad s mode A + ForcePull s B"

definition numPulleys :: "SandboxState \<Rightarrow> nat" where
  "numPulleys s = length (fixedPulleys s) + length (movablePulleys s)"

definition sandboxFrictionForce ::
  "SandboxState \<Rightarrow> RealityMode \<Rightarrow> LoadObject list \<Rightarrow> LoadObject list \<Rightarrow> real" where
  "sandboxFrictionForce s mode A B =
     (if friction s > 0
      then friction s * totalWeight s mode A B * FRICTION_SCALE
             * (if numPulleys s = 0 then 1 else real (numPulleys s))
      else 0)"

text \<open>\<open>ForcePull - ForceLoad / estimatedMA\<close>: the first value of \<open>NetForce\<close>, and \<open>staticDriveForce\<close>.\<close>

definition staticDriveForce ::
  "SandboxState \<Rightarrow> RealityMode \<Rightarrow> LoadObject list \<Rightarrow> LoadObject list \<Rightarrow> real" where
  "staticDriveForce s mode A B = ForcePull s B - ForceLoad s mode A / estimatedMA s"

definition sandboxIsBalanced ::
  "SandboxState \<Rightarrow> RealityMode \<Rightarrow> LoadObject list \<Rightarrow> LoadObject list \<Rightarrow> bool" where
  "sandboxIsBalanced s mode A B =
     (MassCounter B > 0 \<and> (length A > 0 \<or> length (movablePulleys s) > 0)
      \<and> \<bar>staticDriveForce s mode A B\<bar> < 0.1)"

definition avgY_A :: "SandboxState \<Rightarrow> LoadObject list \<Rightarrow> real" where
  "avgY_A s A =
     (if length A > 0 then sum_list (map l_y A) / real (length A)
      else if length (movablePulleys s) > 0
      then sum_list (map p_y (movablePulleys s)) / real (length (movablePulleys s))
      else 0)"

definition avgY_B :: "LoadObject list \<Rightarrow> real" where
  "avgY_B B = (if length B > 0 then sum_list (map l_y B) / real (length B) else 0)"

text \<open>\<open>NetForce\<close> after the centering block, the friction block and the drag block.\<close>

definition NetForce ::
  "SandboxState \<Rightarrow> RealityMode \<Rightarrow> LoadObject list \<Rightarrow> LoadObject list \<Rightarrow> real" where
  "NetForce s mode A B =
     (let nf0 = staticDriveForce s mode A B;
          nf1 = (if sandboxIsBalanced s mode A B \<and> avgY_A s A > 0 \<and> avgY_B B > 0
                 then nf0 + (avgY_A s A - avgY_B B) * 0.1
                 else nf0);
          nf2 = (if \<bar>loadVelocity s\<bar> > 0.01
                 then nf1 - sgn (loadVelocity s) * sandboxFrictionForce s mode A B
                 else if \<bar>nf1\<bar> < sandboxFrictionForce s mode A B then 0
                 else nf1 - sgn nf1 * sandboxFrictionForce s mode A B)
      in if mode = REAL \<and> \<bar>loadVelocity s\<bar> > 0.01
         then nf2 - sgn (loadVelocity s)
                * ((SandboxState.airResistance s * AIR_RESISTANCE_SCALE * 2)
                   * (loadVelocity s * loadVelocity s))
         else nf2)"

definition EffectiveMass ::
  "SandboxState \<Rightarrow> RealityMode \<Rightarrow> LoadObject list \<Rightarrow> LoadObject list \<Rightarrow> real" where
  "EffectiveMass s mode A B =
     MassPullInertia B + MassLoad s mode A / (estimatedMA s * estimatedMA s) + 1"

text \<open>\<open>acceleration\<close> as step 2 leaves it: \<open>NetForce / EffectiveMass\<close>, or 0 on a broken rope.\<close>

definition sandboxAcceleration ::
  "SandboxState \<Rightarrow> RealityMode \<Rightarrow> LoadObject list \<Rightarrow> LoadObject list \<Rightarrow> real" where
  "sandboxAcceleration s mode A B =
     (if SandboxState.isBroken s then 0
      else NetForce s mode A B / EffectiveMass s mode A B)"

subsection \<open>The sandbox: velocity, boundaries, breakage\<close>

definition sandboxStiction ::
  "SandboxState \<Rightarrow> real \<Rightarrow> RealityMode \<Rightarrow> LoadObject list \<Rightarrow> LoadObject list \<Rightarrow> bool" where
  "sandboxStiction s dt mode A B =
     (let v0 = (loadVelocity s + sandboxAcceleration s mode A B * dt) * 1.0;
          v1 = (if sandboxIsBalanced s mode A B then v0 * 0.95 else v0)
      in \<bar>loadVelocity s\<bar> > 0.01 \<and> sgn v1 \<noteq> sgn (loadVelocity s)
         \<and> \<bar>staticDriveForce s mode A B\<bar> \<le> sandboxFrictionForce s mode A B)"

text \<open>\<open>newRopeVelocity\<close> after the clamp to \<open>[-50, 50]\<close>, before the boundary checks.\<close>

definition newRopeVelocity ::
  "SandboxState \<Rightarrow> real \<Rightarrow> RealityMode \<Rightarrow> LoadObject list \<Rightarrow> LoadObject list \<Rightarrow> real" where
  "newRopeVelocity s dt mode A B =
     (let v0 = (loadVelocity s + sandboxAcceleration s mode A B * dt) * 1.0;
          v1 = (if sandboxIsBalanced s mode A B then v0 * 0.95 else v0);
          v2 = (if sandboxStiction s dt mode A B then 0 else v1);
          v3 = (if v2 > 50 then 50 else v2)
      in if v3 < - 50 then - 50 else v3)"

definition deltaRope ::
  "SandboxState \<Rightarrow> real \<Rightarrow> RealityMode \<Rightarrow> LoadObject list \<Rightarrow> LoadObject list \<Rightarrow> real" where
  "deltaRope s dt mode A B = newRopeVelocity s dt mode A B * dt * METERS_TO_PIXELS"

text \<open>\<open>Math.max(...xs)\<close> on a list that is not empty.\<close>

definition ceilingY :: "SandboxState \<Rightarrow> real" where
  "ceilingY s =
     (case map (\<lambda>p. p_y p + p_radius p) (fixedPulleys s) of
        [] \<Rightarrow> 50
      | e # es \<Rightarrow> foldl max e es + 5)"

definition crosses :: "SandboxState \<Rightarrow> real \<Rightarrow> real \<Rightarrow> bool" where
  "crosses s disp y =
     ((disp < 0 \<and> y + disp < ceilingY s) \<or> (disp > 0 \<and> y + disp > floorY))"

definition boundaryHit ::
  "SandboxState \<Rightarrow> real \<Rightarrow> RealityMode \<Rightarrow> LoadObject list \<Rightarrow> LoadObject list \<Rightarrow> bool" where
  "boundaryHit s dt mode A B =
     (let dispA = - (deltaRope s dt mode A B / estimatedMA s);
          dispB = deltaRope s dt mode A B
      in \<not> SandboxState.isBroken s
         \<and> (list_ex (crosses s dispA) (map l_y A @ map p_y (movablePulleys s))
            \<or> list_ex (crosses s dispB) (map l_y B)))"

text \<open>\<open>acceleration\<close> as the breakage check reads it.\<close>

definition finalAcceleration ::
  "SandboxState \<Rightarrow> real \<Rightarrow> RealityMode \<Rightarrow> LoadObject list \<Rightarrow> LoadObject list \<Rightarrow> real" where
  "finalAcceleration s dt mode A B =
     (if boundaryHit s dt mode A B then 0
      else if sandboxStiction s dt mode A B then 0
      else sandboxAcceleration s mode A B)"

definition finalRopeVelocity ::
  "SandboxState \<Rightarrow> real \<Rightarrow> RealityMode \<Rightarrow> LoadObject list \<Rightarrow> LoadObject list \<Rightarrow> real" where
  "finalRopeVelocity s dt mode A B =
     (if boundaryHit s dt mode A B then 0 else newRopeVelocity s dt mode A B)"

definition finalDeltaRope ::
  "SandboxState \<Rightarrow> real \<Rightarrow> RealityMode \<Rightarrow> LoadObject list \<Rightarrow> LoadObject list \<Rightarrow> real" where
  "finalDeltaRope s dt mode A B =
     (if boundaryHit s dt mode A B then 0 else deltaRope s dt mode A B)"

definition sandboxBroken ::
  "SandboxState \<Rightarrow> real \<Rightarrow> RealityMode \<Rightarrow> LoadObject list \<Rightarrow> LoadObject list \<Rightarrow> bool" where
  "sandboxBroken s dt mode A B =
     (if mode = REAL \<and> \<not> SandboxState.isBroken s then
        (let staticTension = ForceLoad s mode A / estimatedMA s;
             dynamicTension = MassLoad s mode A * \<bar>finalAcceleration s dt mode A B\<bar>;
             frictionPenalty = sandboxFrictionForce s mode A B;
             totalEstimatedTension = staticTension + dynamicTension + frictionPenalty * 0.5
         in if totalEstimatedTension > SandboxState.ropeMaxTension s
               \<or> ForcePull s B > SandboxState.ropeMaxTension s
            then True else SandboxState.isBroken s)
      else SandboxState.isBroken s)"

definition finalDispA ::
  "SandboxState \<Rightarrow> real \<Rightarrow> RealityMode \<Rightarrow> LoadObject list \<Rightarrow> LoadObject list \<Rightarrow> real" where
  "finalDispA s dt mode A B =
     (if boundaryHit s dt mode A B \<or> sandboxBroken s dt mode A B then 0
      else - (finalDeltaRope s dt mode A B / estimatedMA s))"

definition finalDispB ::
  "SandboxState \<Rightarrow> real \<Rightarrow> RealityMode \<Rightarrow> LoadObject list \<Rightarrow> LoadObject list \<Rightarrow> real" where
  "finalDispB s dt mode A B =
     (if boundaryHit s dt mode A B \<or> sandboxBroken s dt mode A B then 0
      else finalDeltaRope s dt mode A B)"

definition clamp :: "SandboxState \<Rightarrow> real \<Rightarrow> real" where
  "clamp s val = max (ceilingY s) (min floorY val)"


subsection \<open>The sandbox: movable pulleys\<close>

definition numberOr0 :: "real option \<Rightarrow> real" where
  "numberOr0 side = (case side of None \<Rightarrow> 0 | Some v \<Rightarrow> v)"

definition radiusOr25 :: "Pulley \<Rightarrow> real" where
  "radiusOr25 p = (if p_radius p = 0 then 25 else p_radius p)"

text \<open>
  One rope of the \<open>forEach\<close> that sums the target centres of pulley \<open>p\<close>; the pair is
  \<open>(sumTargetX, count)\<close>. An \<open>otherId\<close> that is the empty string is falsy, as \<open>null\<close> is.
\<close>

definition supportOf :: "SandboxState \<Rightarrow> Pulley \<Rightarrow> real \<times> nat \<Rightarrow> RopeSegment \<Rightarrow> real \<times> nat" where
  "supportOf s p acc r =
     (let otherId = (if fromId r = p_id p then Some (toId r)
                     else if toId r = p_id p then Some (fromId r)
                     else None);
          mySide = (if fromId r = p_id p then numberOr0 (fromSide r)
                    else if toId r = p_id p then numberOr0 (toSide r)
                    else 0);
          otherSide = (if fromId r = p_id p then numberOr0 (toSide r)
                       else if toId r = p_id p then numberOr0 (fromSide r)
                       else 0)
      in case otherId of
           None \<Rightarrow> acc
         | Some oid \<Rightarrow>
             if oid = [] then acc
             else
               (let otherFixed = find (\<lambda>fp. p_id fp = oid) (fixedPulleys s);
                    otherAnchor = find (\<lambda>a. a_id a = oid) (anchors s);
                    otherMovable = find (\<lambda>mp. p_id mp = oid) (movablePulleys s);
                    otherY = (case otherFixed of
                                Some fp \<Rightarrow> p_y fp
                              | None \<Rightarrow>
                                  (case otherAnchor of
                                     Some a \<Rightarrow> a_y a
                                   | None \<Rightarrow>
                                       (case otherMovable of
                                          Some mp \<Rightarrow> p_y mp
                                        | None \<Rightarrow> 9999)))
                in if otherY < p_y p then
                     (let anchorX = (case otherFixed of
                                       Some fp \<Rightarrow> p_x fp + otherSide * radiusOr25 fp
                                     | None \<Rightarrow>
                                         (case otherAnchor of
                                            Some a \<Rightarrow> a_x a
                                          | None \<Rightarrow>
                                              (case otherMovable of
                                                 Some mp \<Rightarrow> p_x mp + otherSide * radiusOr25 mp
                                               | None \<Rightarrow> 0)));
                          targetCenter = anchorX - mySide * radiusOr25 p
                      in (fst acc + targetCenter, Suc (snd acc)))
                   else acc))"

definition updatePulley ::
  "SandboxState \<Rightarrow> real \<Rightarrow> bool \<Rightarrow> real \<Rightarrow> Pulley \<Rightarrow> Pulley" where
  "updatePulley s dt broken dispA p =
     (let nextY = (if broken then min floorY (p_y p + 100 * dt) else clamp s (p_y p + dispA));
          sumTargetX = fst (foldl (supportOf s p) (0, 0) (ropeSegments s));
          count = snd (foldl (supportOf s p) (0, 0) (ropeSegments s));
          vx0 = numberOr0 (p_vx p)
      in if count > 0 \<and> \<not> broken then
           (let targetX = sumTargetX / real count;
                dx = targetX - p_x p;
                k = 1.2;
                forceX = k * dx;
                nextVx = (vx0 + forceX * dt) * 0.95
            in p\<lparr>p_x := p_x p + nextVx * dt * 5, p_y := nextY, p_vx := Some nextVx\<rparr>)
         else
           (let nextVx = vx0 * 0.98
            in p\<lparr>p_x := p_x p + nextVx * dt, p_y := nextY, p_vx := Some nextVx\<rparr>))"

subsection \<open>The sandbox: loads\<close>

text \<open>The branch of a load with no rope, or on a broken rope.\<close>

definition freeFall :: "real \<Rightarrow> RealityMode \<Rightarrow> LoadObject \<Rightarrow> LoadObject" where
  "freeFall dt mode load =
     (let vy0 = l_vy load + GRAVITY * dt * 5;
          vy = (if mode = REAL then vy0 * 0.99 else vy0);
          newY = l_y load + vy * dt * METERS_TO_PIXELS
      in if newY \<ge> floorY then
           (let vyB = - vy * 0.3;
                vyF = (if \<bar>vyB\<bar> < 0.5 then 0 else vyB);
                vx0 = l_vx load * 0.9;
                newVx = (if \<bar>vx0\<bar> < 0.1 then 0 else vx0)
            in load\<lparr>l_y := floorY, l_vy := vyF, l_vx := newVx, l_x := l_x load + newVx * dt\<rparr>)
         else load\<lparr>l_y := newY, l_vy := vy, l_x := l_x load + l_vx load * dt\<rparr>)"

text \<open>The pivot of the pendulum: \<open>(x, y)\<close>, or \<open>None\<close> for \<open>null\<close>.\<close>

definition pivotPoint ::
  "SandboxState \<Rightarrow> Pulley list \<Rightarrow> LoadObject \<Rightarrow> RopeSegment \<Rightarrow> (real \<times> real) option" where
  "pivotPoint s updatedMovablePulleys load connectedRope =
     (let otherId = (if fromId connectedRope = l_id load then toId connectedRope
                     else fromId connectedRope);
          otherFixed = find (\<lambda>p. p_id p = otherId) (fixedPulleys s);
          otherMovable = find (\<lambda>p. p_id p = otherId) updatedMovablePulleys;
          otherAnchor = find (\<lambda>a. a_id a = otherId) (anchors s);
          ropeSideAtPulley = (if fromId connectedRope = otherId
                              then numberOr0 (fromSide connectedRope)
                              else numberOr0 (toSide connectedRope))
      in case otherFixed of
           Some fp \<Rightarrow> Some (p_x fp + ropeSideAtPulley * p_radius fp, p_y fp)
         | None \<Rightarrow>
             (case otherMovable of
                Some mp \<Rightarrow> Some (p_x mp + ropeSideAtPulley * p_radius mp, p_y mp)
              | None \<Rightarrow>
                  (case otherAnchor of
                     Some a \<Rightarrow> Some (a_x a, a_y a)
                   | None \<Rightarrow> None)))"

definition swing :: "real \<Rightarrow> LoadObject \<Rightarrow> real \<Rightarrow> (real \<times> real) option \<Rightarrow> real" where
  "swing dt load newY pivot =
     (case pivot of
        None \<Rightarrow> l_vx load * 0.90
      | Some pv \<Rightarrow>
          if newY > snd pv then
            (let dx = l_x load - fst pv;
                 dy = l_y load - snd pv;
                 len = sqrt (dx * dx + dy * dy)
             in if len > 0
                then (l_vx load + (- (GRAVITY * 2.5) * (dx / len)) * dt) * 0.98
                else l_vx load)
          else l_vx load * 0.90)"

definition updateLoad ::
  "SandboxState \<Rightarrow> real \<Rightarrow> RealityMode \<Rightarrow> LoadObject list \<Rightarrow> LoadObject list \<Rightarrow> bool
     \<Rightarrow> real \<Rightarrow> real \<Rightarrow> Pulley list \<Rightarrow> LoadObject \<Rightarrow> LoadObject" where
  "updateLoad s dt mode A B broken dispA dispB updatedMovablePulleys load =
     (case find (\<lambda>r. fromId r = l_id load \<or> toId r = l_id load) (ropeSegments s) of
        None \<Rightarrow> freeFall dt mode load
      | Some connectedRope \<Rightarrow>
          if broken then freeFall dt mode load
          else
            (let systemDispY = (if list_ex (\<lambda>l. l_id l = l_id load) A then dispA
                                else if list_ex (\<lambda>l. l_id l = l_id load) B then dispB
                                else 0);
                 newY = clamp s (l_y load + systemDispY);
                 newVx = swing dt load newY (pivotPoint s updatedMovablePulleys load connectedRope)
             in load\<lparr>l_y := newY, l_x := l_x load + newVx * dt * METERS_TO_PIXELS,
                     l_vx := newVx, l_vy := 0\<rparr>))"

subsection \<open>The sandbox: \<open>updateSandboxPhysics\<close>\<close>

text \<open>Steps 2 to 7, on the groups that step 1 found.\<close>

definition sandboxStep ::
  "SandboxState \<Rightarrow> real \<Rightarrow> RealityMode \<Rightarrow> LoadObject list \<Rightarrow> LoadObject list \<Rightarrow> SandboxState" where
  "sandboxStep s dt mode A B =
     (let broken = sandboxBroken s dt mode A B;
          v = finalRopeVelocity s dt mode A B;
          updatedMovablePulleys =
            map (updatePulley s dt broken (finalDispA s dt mode A B)) (movablePulleys s);
          updatedLoads =
            map (updateLoad s dt mode A B broken (finalDispA s dt mode A B)
                   (finalDispB s dt mode A B) updatedMovablePulleys) (loads s)
      in s\<lparr>loadVelocity := (if broken then 0 else v),
           loadPosition := loadPosition s + (if broken then 0 else v * dt),
           movablePulleys := updatedMovablePulleys,
           loads := updatedLoads,
           SandboxState.isBroken := broken\<rparr>)"

text \<open>\<open>None\<close> is a call that never returns: a traversal of step 1 that does not end.\<close>

definition updateSandboxPhysics ::
  "SandboxState \<Rightarrow> real \<Rightarrow> RealityMode \<Rightarrow> SandboxState option" where
  "updateSandboxPhysics s dt mode =
     (if isDragging s then Some s
      else (case loadGroups s of
              None \<Rightarrow> None
            | Some groups \<Rightarrow> Some (sandboxStep s dt mode (fst groups) (snd groups))))"


subsection \<open>Concrete states\<close>

text \<open>\<^verbatim>\<open>INITIAL_SANDBOX\<close> of \<^verbatim>\<open>src/App.tsx\<close>.\<close>

definition INITIAL_SANDBOX :: SandboxState where
  "INITIAL_SANDBOX = \<lparr>fixedPulleys = [], movablePulleys = [], loads = [], anchors = [],
     effortForce = 50, friction = 0, ropeMaxTension = 120, airResistance = 0.1,
     isBroken = False, interactionMode = Select, ropeSegments = [],
     ropeBuilderState = \<lparr>b_step = Idle, firstId = None, secondId = None\<rparr>,
     ropeConnectionStartId = None, loadPosition = 80, loadVelocity = 0, isDragging = False,
     selectedId = None\<rparr>"

text \<open>
  Scenario B: the \<open>movable\<close> preset of the controls without its counterweight \<open>load-pull\<close> and
  the rope to it, pulled by hand with 50 N.
\<close>

definition loadLift :: LoadObject where
  "loadLift = \<lparr>l_id = ''load-lift'', l_mass = 10, l_color = ''#ef4444'', l_x = 400,
     l_y = 400, l_vx = 0, l_vy = 0\<rparr>"

definition scenarioB :: SandboxState where
  "scenarioB = INITIAL_SANDBOX\<lparr>
     fixedPulleys := [\<lparr>p_id = ''fixed-1'', p_x = 452.5, p_y = 50, p_radius = 25, p_vx = None\<rparr>],
     movablePulleys := [\<lparr>p_id = ''movable-1'', p_x = 400, p_y = 300, p_radius = 25,
                         p_vx = None\<rparr>],
     loads := [loadLift],
     anchors := [\<lparr>a_id = ''anchor-1'', a_x = 347.5, a_y = 50\<rparr>],
     ropeSegments :=
       [\<lparr>r_id = ''r1'', fromId = ''anchor-1'', toId = ''movable-1'', r_type = PulleyRope,
          fromSide = Some 0, toSide = Some (- 1)\<rparr>,
        \<lparr>r_id = ''r2'', fromId = ''movable-1'', toId = ''fixed-1'', r_type = PulleyRope,
          fromSide = Some 1, toSide = Some (- 1)\<rparr>,
        \<lparr>r_id = ''r4'', fromId = ''movable-1'', toId = ''load-lift'', r_type = Direct,
          fromSide = Some 0, toSide = Some 0\<rparr>]\<rparr>"

text \<open>
  Two weight blocks as \<open>addWeightBlock\<close> makes them, tied to each other by a direct rope as
  the rope tool makes it; no pulley, no anchor.
\<close>

definition block1 :: LoadObject where
  "block1 = \<lparr>l_id = ''load-1'', l_mass = 5, l_color = ''#3b82f6'', l_x = 400, l_y = 350,
     l_vx = 0, l_vy = 0\<rparr>"

definition block2 :: LoadObject where
  "block2 = \<lparr>l_id = ''load-2'', l_mass = 5, l_color = ''#ef4444'', l_x = 400, l_y = 350,
     l_vx = 0, l_vy = 0\<rparr>"

definition tiedBlocks :: SandboxState where
  "tiedBlocks = INITIAL_SANDBOX\<lparr>
     loads := [block1, block2],
     ropeSegments := [\<lparr>r_id = ''rope-1'', fromId = ''load-1'', toId = ''load-2'',
                       r_type = Direct, fromSide = Some 0, toSide = Some 0\<rparr>]\<rparr>"

text \<open>
  One fixed pulley with a block hanging on each side, a third block with no rope, and a
  fourth block tied to an anchor.
\<close>

definition block3 :: LoadObject where
  "block3 = \<lparr>l_id = ''load-3'', l_mass = 5, l_color = ''#10b981'', l_x = 400, l_y = 350,
     l_vx = 0, l_vy = 0\<rparr>"

definition block4 :: LoadObject where
  "block4 = \<lparr>l_id = ''load-4'', l_mass = 5, l_color = ''#f59e0b'', l_x = 400, l_y = 350,
     l_vx = 0, l_vy = 0\<rparr>"

definition overPulley :: SandboxState where
  "overPulley = INITIAL_SANDBOX\<lparr>
     fixedPulleys := [\<lparr>p_id = ''fixed-1'', p_x = 400, p_y = 50, p_radius = 25, p_vx = None\<rparr>],
     loads := [block1, block2, block3, block4],
     anchors := [\<lparr>a_id = ''anchor-1'', a_x = 50, a_y = 50\<rparr>],
     ropeSegments :=
       [\<lparr>r_id = ''rope-1'', fromId = ''load-1'', toId = ''fixed-1'', r_type = PulleyRope,
          fromSide = Some 0, toSide = Some (- 1)\<rparr>,
        \<lparr>r_id = ''rope-2'', fromId = ''fixed-1'', toId = ''load-2'', r_type = PulleyRope,
          fromSide = Some 1, toSide = Some 0\<rparr>,
        \<lparr>r_id = ''rope-3'', fromId = ''load-4'', toId = ''anchor-1'', r_type = Direct,
          fromSide = Some 0, toSide = Some 0\<rparr>]\<rparr>"

text \<open>Two blocks in a row under a fixed pulley: the walk from the first passes the second.\<close>

definition chain :: SandboxState where
  "chain = INITIAL_SANDBOX\<lparr>
     fixedPulleys := [\<lparr>p_id = ''fixed-1'', p_x = 400, p_y = 50, p_radius = 25, p_vx = None\<rparr>],
     loads := [block1, block2],
     ropeSegments :=
       [\<lparr>r_id = ''rope-1'', fromId = ''load-1'', toId = ''load-2'', r_type = Direct,
          fromSide = Some 0, toSide = Some 0\<rparr>,
        \<lparr>r_id = ''rope-2'', fromId = ''load-2'', toId = ''fixed-1'', r_type = PulleyRope,
          fromSide = Some 0, toSide = Some 1\<rparr>]\<rparr>"

text \<open>
  Two ways from the first block to the fixed pulley: by one block to side \<open>-1\<close>, and by two
  blocks to side \<open>1\<close>.
\<close>

definition fork :: SandboxState where
  "fork = INITIAL_SANDBOX\<lparr>
     fixedPulleys := [\<lparr>p_id = ''fixed-1'', p_x = 400, p_y = 50, p_radius = 25, p_vx = None\<rparr>],
     loads := [block1, block2, block3, block4],
     ropeSegments :=
       [\<lparr>r_id = ''rope-1'', fromId = ''load-1'', toId = ''load-3'', r_type = Direct,
          fromSide = Some 0, toSide = Some 0\<rparr>,
        \<lparr>r_id = ''rope-2'', fromId = ''load-3'', toId = ''load-4'', r_type = Direct,
          fromSide = Some 0, toSide = Some 0\<rparr>,
        \<lparr>r_id = ''rope-3'', fromId = ''load-4'', toId = ''fixed-1'', r_type = PulleyRope,
          fromSide = Some 0, toSide = Some 1\<rparr>,
        \<lparr>r_id = ''rope-4'', fromId = ''load-1'', toId = ''load-2'', r_type = Direct,
          fromSide = Some 0, toSide = Some 0\<rparr>,
        \<lparr>r_id = ''rope-5'', fromId = ''load-2'', toId = ''fixed-1'', r_type = PulleyRope,
          fromSide = Some 0, toSide = Some (- 1)\<rparr>]\<rparr>"

text \<open>Scenario B with the movable pulley at the ceiling, where a rising tick is vetoed.\<close>

definition atCeiling :: SandboxState where
  "atCeiling = scenarioB\<lparr>movablePulleys :=
     [\<lparr>p_id = ''movable-1'', p_x = 400, p_y = 80, p_radius = 25, p_vx = None\<rparr>]\<rparr>"

text \<open>
  States of the Atwood machine: mass 1 at the upper stop after a normal tick, a snapped
  rope, and a machine with no mass at all.
\<close>

definition nearTop :: AtwoodState where
  "nearTop = INITIAL_ATWOOD\<lparr>y1 := 0.2, y2 := 4.8, velocity := 1, acceleration := 9.81 / 5.5,
     tension1 := 2 * (9.81 + 9.81 / 5.5), tension2 := 3 * (9.81 - 9.81 / 5.5)\<rparr>"

definition brokenAtwood :: AtwoodState where
  "brokenAtwood = INITIAL_ATWOOD\<lparr>isBroken := True, velocity := 1.2\<rparr>"

definition zeroMass :: AtwoodState where
  "zeroMass = INITIAL_ATWOOD\<lparr>mass1 := 0, mass2 := 0, pulleyMass := 0\<rparr>"

subsection \<open>Notions for the partition without movable pulleys\<close>

text \<open>The end of rope \<open>r\<close> that \<open>getSide\<close> calls \<open>other\<close> when it stands at \<open>cur\<close>.\<close>

definition otherEnd :: "RopeSegment \<Rightarrow> string \<Rightarrow> string" where
  "otherEnd r cur = (if fromId r = cur then toId r else fromId r)"

text \<open>The side \<open>getSide\<close> returns for rope \<open>r\<close> at the fixed pulley \<open>other\<close>.\<close>

definition sideAt :: "RopeSegment \<Rightarrow> string \<Rightarrow> real" where
  "sideAt r other =
     (case (if toId r = other then toSide r else fromSide r) of Some v \<Rightarrow> v | None \<Rightarrow> - 1)"

text \<open>
  The outward walk from \<open>i\<close>: it stands at \<open>i\<close> after no rope, and from an id it goes to
  every load at the other end of one of the ropes there. \<open>walks s i n c\<close>: a walk of \<open>n\<close>
  ropes from \<open>i\<close> stands at \<open>c\<close>.
\<close>

inductive walks :: "SandboxState \<Rightarrow> string \<Rightarrow> nat \<Rightarrow> string \<Rightarrow> bool"
  for s :: SandboxState and i :: string where
  start: "walks s i 0 i"
| step: "walks s i n c \<Longrightarrow> r \<in> set (ropeSegments s) \<Longrightarrow> fromId r = c \<or> toId r = c
         \<Longrightarrow> otherEnd r c \<in> set (map l_id (loads s)) \<Longrightarrow> walks s i (Suc n) (otherEnd r c)"

text \<open>Rope \<open>r\<close> leads from \<open>c\<close> to a fixed pulley.\<close>

definition exitAt :: "SandboxState \<Rightarrow> string \<Rightarrow> RopeSegment \<Rightarrow> bool" where
  "exitAt s c r =
     (r \<in> set (ropeSegments s) \<and> (fromId r = c \<or> toId r = c)
      \<and> otherEnd r c \<in> set (fixedIds s))"

text \<open>The first rope of the state, in the order of \<open>ropeSegments\<close>, that does so.\<close>

definition firstExit :: "SandboxState \<Rightarrow> string \<Rightarrow> RopeSegment option" where
  "firstExit s c =
     find (\<lambda>r. (fromId r = c \<or> toId r = c) \<and> otherEnd r c \<in> set (fixedIds s))
       (ropeSegments s)"

text \<open>A walk of \<open>n\<close> ropes from \<open>i\<close> reaches a fixed pulley: at \<open>c\<close>, by rope \<open>r\<close>.\<close>

definition reaches :: "SandboxState \<Rightarrow> string \<Rightarrow> nat \<Rightarrow> string \<Rightarrow> RopeSegment \<Rightarrow> bool" where
  "reaches s i n c r = (walks s i n c \<and> exitAt s c r)"

text \<open>
  The same, where no walk from \<open>i\<close> reaches a fixed pulley by fewer ropes and \<open>r\<close> is the
  first such rope at \<open>c\<close>.
\<close>

definition nearestExit ::
  "SandboxState \<Rightarrow> string \<Rightarrow> nat \<Rightarrow> string \<Rightarrow> RopeSegment \<Rightarrow> bool" where
  "nearestExit s i n c r =
     (reaches s i n c r \<and> firstExit s c = Some r
      \<and> (\<forall>n' c' r'. reaches s i n' c' r' \<longrightarrow> n \<le> n'))"

text \<open>
  The invariant of the loop of \<open>getSide\<close>, on the queue with the length of a walk beside
  each id. The lengths in the queue ascend and differ by one at most. A visited id has no
  rope to a fixed pulley, no walk to it is shorter than \<open>lab\<close> says, and each load next to
  it is visited or queued with a length of at most one more. The start is visited or
  queued with length 0.
\<close>

definition bfsInv ::
  "SandboxState \<Rightarrow> string \<Rightarrow> (string \<times> nat) list \<Rightarrow> (string \<Rightarrow> nat) \<Rightarrow> string set \<Rightarrow> bool" where
  "bfsInv s i ql lab visited =
     (sorted (map snd ql)
      \<and> (\<forall>p \<in> set ql. walks s i (snd p) (fst p) \<and> (\<forall>p' \<in> set ql. snd p \<le> snd p' + 1))
      \<and> (\<forall>c \<in> visited.
            (\<forall>m. walks s i m c \<longrightarrow> lab c \<le> m)
            \<and> (\<forall>r \<in> set (ropeSegments s).
                  (fromId r = c \<or> toId r = c) \<longrightarrow>
                    otherEnd r c \<notin> set (fixedIds s)
                    \<and> (otherEnd r c \<in> set (map l_id (loads s)) \<longrightarrow>
                          otherEnd r c \<in> visited
                          \<or> (\<exists>m \<le> lab c + 1. (otherEnd r c, m) \<in> set ql))))
      \<and> (i \<in> visited \<or> (i, 0) \<in> set ql))"

subsection \<open>Measures of the traversals\<close>

text \<open>The ids at the ends of the ropes.\<close>

definition ropeNodes :: "RopeSegment list \<Rightarrow> string set" where
  "ropeNodes ropes = set (map fromId ropes) \<union> set (map toId ropes)"

text \<open>
  \<open>findConnectedLoads\<close>: every push puts a new id into \<open>visited\<close>, every iteration takes one id
  off the queue.
\<close>

definition bfsMeasure :: "string set \<Rightarrow> string set \<times> string list \<Rightarrow> nat" where
  "bfsMeasure N vq = 2 * card (N - fst vq) + length (snd vq)"

text \<open>\<open>getSide\<close>: the ids that may still be visited.\<close>

definition sideMeasure :: "SandboxState \<Rightarrow> string list \<Rightarrow> string set \<Rightarrow> nat" where
  "sideMeasure s q visited = card ((set q \<union> set (map l_id (loads s))) - visited)"


section \<open>Properties of the Atwood step\<close>

lemmas atwood_force_defs =
  netForce_def drivingForce_def centeringForce_def isBalanced_def frictionForce_def
  totalInertialMass_def effectivePulleyInertiaMass_def GRAVITY_def FRICTION_SCALE_def
  AIR_RESISTANCE_SCALE_def

lemmas atwood_step_defs =
  updateAtwoodPhysics_def stepAcceleration_def stepVelocity_def stiction_def ropeLen_def

text \<open>
  C1. Scenario A: an intact state with \<open>mass1 = 2\<close>, \<open>mass2 = 3\<close>, \<open>pulleyMass = 1\<close> and
  \<open>frictionCoeff = 0\<close>, stepped with \<open>dt = 0.016\<close> in \<open>IDEAL\<close> mode on a tick where the position
  clamp does not fire, has driving force \<open>9.81\<close>, total inertial mass \<open>5.5\<close>, and the returned
  acceleration is \<open>9.81 / 5.5\<close>, which is \<open>1.7836\<close> to four decimals.
\<close>

theorem scenario_A:
  assumes "\<not> isBroken s" "mass1 s = 2" "mass2 s = 3" "pulleyMass s = 1" "frictionCoeff s = 0"
    and "\<not> clampFires s 0.016 IDEAL"
  shows "drivingForce s = 9.81 \<and> totalInertialMass s = 5.5
         \<and> acceleration (updateAtwoodPhysics s 0.016 IDEAL) = 9.81 / 5.5
         \<and> \<bar>acceleration (updateAtwoodPhysics s 0.016 IDEAL) - 1.7836\<bar> < 0.00005"
proof -
  have nf: "netForce s IDEAL = 9.81"
    using assms(2,3,5) by (simp add: atwood_force_defs Let_def)
  have ff: "frictionForce s = 0"
    using assms(5) by (simp add: frictionForce_def)
  have tm: "totalInertialMass s = 5.5"
    using assms(2-4) by (simp add: totalInertialMass_def effectivePulleyInertiaMass_def)
  have df: "drivingForce s = 9.81"
    using assms(2,3) by (simp add: drivingForce_def GRAVITY_def)
  have st: "\<not> stiction s dt IDEAL" for dt
    unfolding stiction_def Let_def nf ff by simp
  have acc: "stepAcceleration s dt IDEAL = 9.81 / 5.5" for dt
    unfolding stepAcceleration_def nf tm using st by simp
  have out: "acceleration (updateAtwoodPhysics s 0.016 IDEAL) = stepAcceleration s 0.016 IDEAL"
    using assms(1,6) by (simp add: updateAtwoodPhysics_def clampFires_def Let_def)
  have "acceleration (updateAtwoodPhysics s 0.016 IDEAL) = 9.81 / 5.5"
    unfolding out by (rule acc)
  then show ?thesis
    using df tm by simp
qed

lemma INITIAL_ATWOOD_no_clamp: "\<not> clampFires INITIAL_ATWOOD 0.016 IDEAL"
  by (simp add: clampFires_def stepVelocity_def stiction_def atwood_force_defs ropeLen_def
      Let_def INITIAL_ATWOOD_def)

theorem scenario_A_witness:
  "drivingForce INITIAL_ATWOOD = 9.81 \<and> totalInertialMass INITIAL_ATWOOD = 5.5
   \<and> acceleration (updateAtwoodPhysics INITIAL_ATWOOD 0.016 IDEAL) = 9.81 / 5.5
   \<and> \<bar>acceleration (updateAtwoodPhysics INITIAL_ATWOOD 0.016 IDEAL) - 1.7836\<bar> < 0.00005"
proof -
  have "\<not> isBroken INITIAL_ATWOOD" "mass1 INITIAL_ATWOOD = 2"
    "mass2 INITIAL_ATWOOD = 3" "pulleyMass INITIAL_ATWOOD = 1" "frictionCoeff INITIAL_ATWOOD = 0"
    by (simp_all add: INITIAL_ATWOOD_def)
  with INITIAL_ATWOOD_no_clamp show ?thesis
    by (rule scenario_A [rotated 5])
qed

subsection \<open>Agreement of the two embeddings\<close>

text \<open>
  With a total inertial mass that is not zero, the numbers of the intact branch are
  finite and are those of \<open>updateAtwoodPhysics\<close>; \<open>angularVelocity\<close> needs a pulley radius that
  is not zero as well. The broken branch divides by the masses in \<open>REAL\<close> mode only.
\<close>

lemma jne_Fin: "jne (Fin a) (Fin b) = (a \<noteq> b)"
  by (simp add: jne_def)

lemma stictionJS_finite:
  "totalInertialMass s \<noteq> 0 \<Longrightarrow> stictionJS s dt mode = stiction s dt mode"
  by (simp add: stictionJS_def stiction_def Let_def jne_Fin)

lemma stepAccelerationJS_finite:
  "totalInertialMass s \<noteq> 0 \<Longrightarrow> stepAccelerationJS s dt mode = Fin (stepAcceleration s dt mode)"
  by (simp add: stepAccelerationJS_def stepAcceleration_def stictionJS_finite)

lemma stepVelocityJS_finite:
  "totalInertialMass s \<noteq> 0 \<Longrightarrow> stepVelocityJS s dt mode = Fin (stepVelocity s dt mode)"
  by (simp add: stepVelocityJS_def stepVelocity_def stictionJS_finite Let_def)

lemmas atwood_js_defs =
  updateAtwoodPhysicsJS_def updateAtwoodPhysics_def stepAccelerationJS_finite
  stepVelocityJS_finite numbersOf_def jsub_def

lemma updateAtwoodPhysicsJS_intact:
  assumes "\<not> isBroken s" "totalInertialMass s \<noteq> 0" "pulleyRadius s \<noteq> 0"
  shows "updateAtwoodPhysicsJS s dt mode = numbersOf (updateAtwoodPhysics s dt mode)"
  using assms by (simp add: atwood_js_defs Let_def)

lemma updateAtwoodPhysicsJS_fields:
  assumes "\<not> isBroken s" "totalInertialMass s \<noteq> 0"
  shows "js_y1 (updateAtwoodPhysicsJS s dt mode) = Fin (y1 (updateAtwoodPhysics s dt mode))"
    and "js_y2 (updateAtwoodPhysicsJS s dt mode) = Fin (y2 (updateAtwoodPhysics s dt mode))"
    and "js_velocity (updateAtwoodPhysicsJS s dt mode)
           = Fin (velocity (updateAtwoodPhysics s dt mode))"
    and "js_acceleration (updateAtwoodPhysicsJS s dt mode)
           = Fin (acceleration (updateAtwoodPhysics s dt mode))"
    and "js_tension1 (updateAtwoodPhysicsJS s dt mode)
           = Fin (tension1 (updateAtwoodPhysics s dt mode))"
    and "js_tension2 (updateAtwoodPhysicsJS s dt mode)
           = Fin (tension2 (updateAtwoodPhysics s dt mode))"
    and "js_time (updateAtwoodPhysicsJS s dt mode) = Fin (time (updateAtwoodPhysics s dt mode))"
    and "js_isBroken (updateAtwoodPhysicsJS s dt mode) = isBroken (updateAtwoodPhysics s dt mode)"
  using assms by (simp_all add: atwood_js_defs Let_def)

lemma updateAtwoodPhysicsJS_broken:
  assumes "isBroken s" "mode = REAL \<longrightarrow> mass1 s \<noteq> 0 \<and> mass2 s \<noteq> 0"
  shows "updateAtwoodPhysicsJS s dt mode = numbersOf (updateAtwoodPhysics s dt mode)"
  using assms
  by (simp add: updateAtwoodPhysicsJS_def updateAtwoodPhysics_def brokenV1JS_def brokenV2JS_def
      brokenV1_def brokenV2_def numbersOf_def jsub_def Let_def)

subsection \<open>The position clamp\<close>

text \<open>
  C4 as stated fails at a state whose total inertial mass is zero: in \<open>zeroMass\<close> the net
  force is 0 too, the acceleration is \<open>0 / 0\<close>, and the new \<open>y1\<close> is \<open>NaN\<close>, which passes both
  clamp tests; the step returns it in a state that is still intact.
\<close>

theorem boundary_clamp_counterexample:
  "\<not> isBroken zeroMass \<and> 0.2 \<le> y1 zeroMass \<and> y1 zeroMass \<le> totalRopeLength zeroMass - 0.2
   \<and> \<not> js_isBroken (updateAtwoodPhysicsJS zeroMass 0.016 IDEAL)
   \<and> js_y1 (updateAtwoodPhysicsJS zeroMass 0.016 IDEAL) = NaN"
  by (simp add: updateAtwoodPhysicsJS_def stepAccelerationJS_def stepVelocityJS_def stictionJS_def
      atwood_force_defs ropeLen_def numbersOf_def jsub_def Let_def zeroMass_def
      INITIAL_ATWOOD_def)

lemma updateAtwoodPhysics_totalRopeLength:
  "totalRopeLength (updateAtwoodPhysics s dt mode) = totalRopeLength s"
  by (simp add: updateAtwoodPhysics_def Let_def)

lemma updateAtwoodPhysics_totalInertialMass:
  "totalInertialMass (updateAtwoodPhysics s dt mode) = totalInertialMass s"
  by (simp add: updateAtwoodPhysics_def totalInertialMass_def effectivePulleyInertiaMass_def
      Let_def)

lemma updateAtwoodPhysics_y1_range:
  assumes "\<not> isBroken s" "0.4 \<le> totalRopeLength s"
  shows "0.2 \<le> y1 (updateAtwoodPhysics s dt mode)
         \<and> y1 (updateAtwoodPhysics s dt mode) \<le> totalRopeLength s - 0.2"
proof -
  have "ropeLen s = totalRopeLength s"
    using assms(2) by (simp add: ropeLen_def)
  then show ?thesis
    using assms by (simp add: updateAtwoodPhysics_def Let_def)
qed

lemma runAtwood_totalRopeLength:
  "\<forall>t \<in> set (runAtwood s steps). totalRopeLength t = totalRopeLength s"
  by (induction steps arbitrary: s) (auto simp: updateAtwoodPhysics_totalRopeLength)

lemma runAtwood_totalInertialMass:
  "\<forall>t \<in> set (runAtwood s steps). totalInertialMass t = totalInertialMass s"
  by (induction steps arbitrary: s) (auto simp: updateAtwoodPhysics_totalInertialMass)

lemma runAtwood_y1_range:
  assumes "0.4 \<le> totalRopeLength s" "\<forall>t \<in> set (s # runAtwood s steps). \<not> isBroken t"
  shows "\<forall>t \<in> set (runAtwood s steps). 0.2 \<le> y1 t \<and> y1 t \<le> totalRopeLength s - 0.2"
  using assms
proof (induction steps arbitrary: s)
  case Nil
  then show ?case by simp
next
  case (Cons a steps)
  obtain dt mode where a: "a = (dt, mode)" by (cases a)
  let ?s' = "updateAtwoodPhysics s dt mode"
  have len: "totalRopeLength ?s' = totalRopeLength s"
    by (rule updateAtwoodPhysics_totalRopeLength)
  have intact: "\<not> isBroken s"
    using Cons.prems(2) by simp
  have rest: "\<forall>t \<in> set (?s' # runAtwood ?s' steps). \<not> isBroken t"
    using Cons.prems(2) a by simp
  have "\<forall>t \<in> set (runAtwood ?s' steps). 0.2 \<le> y1 t \<and> y1 t \<le> totalRopeLength ?s' - 0.2"
    using Cons.IH [of ?s'] Cons.prems(1) rest len by simp
  moreover have "0.2 \<le> y1 ?s' \<and> y1 ?s' \<le> totalRopeLength s - 0.2"
    using updateAtwoodPhysics_y1_range [OF intact Cons.prems(1)] .
  ultimately show ?case
    using a len by simp
qed

text \<open>
  C4, amended; the numbers are exact reals. From a state whose total inertial mass
  \<open>mass1 + mass2 + 0.5 * pulleyMass\<close> is not zero and whose \<open>y1\<close> lies in
  \<open>[0.2, totalRopeLength - 0.2]\<close>, along every sequence of calls (any finite \<open>dt\<close>, any mode)
  on which the state stays intact, the \<open>y1\<close> of every state produced lies in
  \<open>[0.2, totalRopeLength - 0.2]\<close>. Every call of the sequence is made on a state with that
  total inertial mass, where the numbers the code returns are these finite numbers, in
  every field but \<open>angularVelocity\<close>, which no call reads.
\<close>

theorem boundary_clamp:
  assumes "totalInertialMass s \<noteq> 0"
    and "0.2 \<le> y1 s" "y1 s \<le> totalRopeLength s - 0.2"
    and "\<forall>t \<in> set (s # runAtwood s steps). \<not> isBroken t"
  shows "(\<forall>t \<in> set (runAtwood s steps). 0.2 \<le> y1 t \<and> y1 t \<le> totalRopeLength t - 0.2)
       \<and> (\<forall>t \<in> set (s # runAtwood s steps). \<forall>dt mode.
            js_y1 (updateAtwoodPhysicsJS t dt mode) = Fin (y1 (updateAtwoodPhysics t dt mode))
          \<and> js_y2 (updateAtwoodPhysicsJS t dt mode) = Fin (y2 (updateAtwoodPhysics t dt mode))
          \<and> js_velocity (updateAtwoodPhysicsJS t dt mode)
               = Fin (velocity (updateAtwoodPhysics t dt mode))
          \<and> js_acceleration (updateAtwoodPhysicsJS t dt mode)
               = Fin (acceleration (updateAtwoodPhysics t dt mode))
          \<and> js_tension1 (updateAtwoodPhysicsJS t dt mode)
               = Fin (tension1 (updateAtwoodPhysics t dt mode))
          \<and> js_tension2 (updateAtwoodPhysicsJS t dt mode)
               = Fin (tension2 (updateAtwoodPhysics t dt mode))
          \<and> js_time (updateAtwoodPhysicsJS t dt mode)
               = Fin (time (updateAtwoodPhysics t dt mode))
          \<and> js_isBroken (updateAtwoodPhysicsJS t dt mode)
               = isBroken (updateAtwoodPhysics t dt mode))"
proof -
  have len: "0.4 \<le> totalRopeLength s"
    using assms(2,3) by simp
  have range: "\<forall>t \<in> set (runAtwood s steps). 0.2 \<le> y1 t \<and> y1 t \<le> totalRopeLength t - 0.2"
    using runAtwood_y1_range [OF len assms(4)] runAtwood_totalRopeLength [of s steps] by simp
  have fields: "\<forall>t \<in> set (s # runAtwood s steps). \<forall>dt mode.
            js_y1 (updateAtwoodPhysicsJS t dt mode) = Fin (y1 (updateAtwoodPhysics t dt mode))
          \<and> js_y2 (updateAtwoodPhysicsJS t dt mode) = Fin (y2 (updateAtwoodPhysics t dt mode))
          \<and> js_velocity (updateAtwoodPhysicsJS t dt mode)
               = Fin (velocity (updateAtwoodPhysics t dt mode))
          \<and> js_acceleration (updateAtwoodPhysicsJS t dt mode)
               = Fin (acceleration (updateAtwoodPhysics t dt mode))
          \<and> js_tension1 (updateAtwoodPhysicsJS t dt mode)
               = Fin (tension1 (updateAtwoodPhysics t dt mode))
          \<and> js_tension2 (updateAtwoodPhysicsJS t dt mode)
               = Fin (tension2 (updateAtwoodPhysics t dt mode))
          \<and> js_time (updateAtwoodPhysicsJS t dt mode)
               = Fin (time (updateAtwoodPhysics t dt mode))
          \<and> js_isBroken (updateAtwoodPhysicsJS t dt mode)
               = isBroken (updateAtwoodPhysics t dt mode)"
  proof (intro ballI allI)
    fix t dt mode assume t: "t \<in> set (s # runAtwood s steps)"
    have i: "\<not> isBroken t"
      using assms(4) t by blast
    have m: "totalInertialMass t \<noteq> 0"
      using assms(1) t runAtwood_totalInertialMass [of s steps] by auto
    show "js_y1 (updateAtwoodPhysicsJS t dt mode) = Fin (y1 (updateAtwoodPhysics t dt mode))
          \<and> js_y2 (updateAtwoodPhysicsJS t dt mode) = Fin (y2 (updateAtwoodPhysics t dt mode))
          \<and> js_velocity (updateAtwoodPhysicsJS t dt mode)
               = Fin (velocity (updateAtwoodPhysics t dt mode))
          \<and> js_acceleration (updateAtwoodPhysicsJS t dt mode)
               = Fin (acceleration (updateAtwoodPhysics t dt mode))
          \<and> js_tension1 (updateAtwoodPhysicsJS t dt mode)
               = Fin (tension1 (updateAtwoodPhysics t dt mode))
          \<and> js_tension2 (updateAtwoodPhysicsJS t dt mode)
               = Fin (tension2 (updateAtwoodPhysics t dt mode))
          \<and> js_time (updateAtwoodPhysicsJS t dt mode)
               = Fin (time (updateAtwoodPhysics t dt mode))
          \<and> js_isBroken (updateAtwoodPhysicsJS t dt mode)
               = isBroken (updateAtwoodPhysics t dt mode)"
      by (intro conjI updateAtwoodPhysicsJS_fields [OF i m])
  qed
  from range fields show ?thesis
    by (rule conjI)
qed

lemma INITIAL_ATWOOD_tick:
  "updateAtwoodPhysics INITIAL_ATWOOD 0.016 IDEAL =
     INITIAL_ATWOOD\<lparr>y1 := 2.0 - (9.81 / 5.5 * 0.016) * 0.016,
       y2 := 5.0 - (2.0 - (9.81 / 5.5 * 0.016) * 0.016),
       velocity := 9.81 / 5.5 * 0.016, acceleration := 9.81 / 5.5,
       tension1 := 2 * (9.81 + 9.81 / 5.5), tension2 := 3 * (9.81 - 9.81 / 5.5),
       angularVelocity := (9.81 / 5.5 * 0.016) / 0.2, isBroken := False,
       time := 0.016\<rparr>"
  by (simp add: atwood_step_defs atwood_force_defs Let_def INITIAL_ATWOOD_def)

lemma INITIAL_ATWOOD_second_tick:
  "\<not> isBroken (updateAtwoodPhysics (updateAtwoodPhysics INITIAL_ATWOOD 0.016 IDEAL) 0.016 REAL)"
  unfolding INITIAL_ATWOOD_tick
  by (simp add: atwood_step_defs atwood_force_defs Let_def INITIAL_ATWOOD_def)

lemma INITIAL_ATWOOD_inertia: "totalInertialMass INITIAL_ATWOOD \<noteq> 0"
  by (simp add: totalInertialMass_def effectivePulleyInertiaMass_def INITIAL_ATWOOD_def)

theorem boundary_clamp_witness:
  "0.2 \<le> y1 (updateAtwoodPhysics (updateAtwoodPhysics INITIAL_ATWOOD 0.016 IDEAL) 0.016 REAL)
   \<and> y1 (updateAtwoodPhysics (updateAtwoodPhysics INITIAL_ATWOOD 0.016 IDEAL) 0.016 REAL)
       \<le> totalRopeLength INITIAL_ATWOOD - 0.2
   \<and> js_y1 (updateAtwoodPhysicsJS INITIAL_ATWOOD 0.016 IDEAL)
       = Fin (y1 (updateAtwoodPhysics INITIAL_ATWOOD 0.016 IDEAL))"
proof -
  let ?s1 = "updateAtwoodPhysics INITIAL_ATWOOD 0.016 IDEAL"
  let ?s2 = "updateAtwoodPhysics ?s1 0.016 REAL"
  have i0: "\<not> isBroken INITIAL_ATWOOD" "0.2 \<le> y1 INITIAL_ATWOOD"
    "y1 INITIAL_ATWOOD \<le> totalRopeLength INITIAL_ATWOOD - 0.2"
    by (simp_all add: INITIAL_ATWOOD_def)
  have i1: "\<not> isBroken ?s1"
    unfolding INITIAL_ATWOOD_tick by simp
  have run: "runAtwood INITIAL_ATWOOD [(0.016, IDEAL), (0.016, REAL)] = [?s1, ?s2]"
    by simp
  have "\<forall>t \<in> set (INITIAL_ATWOOD # runAtwood INITIAL_ATWOOD [(0.016, IDEAL), (0.016, REAL)]).
          \<not> isBroken t"
    unfolding run using i0(1) i1 INITIAL_ATWOOD_second_tick by simp
  note b = boundary_clamp [OF INITIAL_ATWOOD_inertia i0(2,3) this]
  have "?s2 \<in> set (runAtwood INITIAL_ATWOOD [(0.016, IDEAL), (0.016, REAL)])"
    unfolding run by simp
  from bspec [OF b [THEN conjunct1] this]
  have r: "0.2 \<le> y1 ?s2 \<and> y1 ?s2 \<le> totalRopeLength INITIAL_ATWOOD - 0.2"
    by (simp add: updateAtwoodPhysics_totalRopeLength)
  have "INITIAL_ATWOOD
        \<in> set (INITIAL_ATWOOD # runAtwood INITIAL_ATWOOD [(0.016, IDEAL), (0.016, REAL)])"
    by simp
  from bspec [OF b [THEN conjunct2] this]
  have "js_y1 (updateAtwoodPhysicsJS INITIAL_ATWOOD 0.016 IDEAL)
        = Fin (y1 (updateAtwoodPhysics INITIAL_ATWOOD 0.016 IDEAL))"
    by blast
  with r show ?thesis
    by blast
qed

subsection \<open>The tension identity\<close>

lemma nearTop_step:
  "updateAtwoodPhysics nearTop 0.016 IDEAL = nearTop\<lparr>velocity := 0, acceleration := 0\<rparr>"
  by (simp add: atwood_step_defs atwood_force_defs Let_def INITIAL_ATWOOD_def nearTop_def)

lemma nearTop_clamp: "clampFires nearTop 0.016 IDEAL"
  by (simp add: clampFires_def stepVelocity_def stiction_def atwood_force_defs ropeLen_def
      Let_def INITIAL_ATWOOD_def nearTop_def)

lemma zeroMass_tick:
  "\<not> isBroken zeroMass
   \<and> \<not> js_isBroken (updateAtwoodPhysicsJS zeroMass 0.016 IDEAL)
   \<and> js_acceleration (updateAtwoodPhysicsJS zeroMass 0.016 IDEAL) = NaN
   \<and> js_tension1 (updateAtwoodPhysicsJS zeroMass 0.016 IDEAL) = NaN
   \<and> js_tension2 (updateAtwoodPhysicsJS zeroMass 0.016 IDEAL) = NaN"
  by (simp add: updateAtwoodPhysicsJS_def stepAccelerationJS_def stepVelocityJS_def stictionJS_def
      atwood_force_defs ropeLen_def numbersOf_def jsub_def Let_def zeroMass_def
      INITIAL_ATWOOD_def)

text \<open>
  C5 as stated fails on a tick on which the clamp fires: the early return sets the
  acceleration to 0 and keeps the tensions of the input state. From \<open>nearTop\<close> (mass 1 at the
  upper stop, moving up, with the tensions and acceleration of a normal tick) the step is
  intact before and after, and the identity does not hold on its output. It fails as well
  where the total inertial mass is zero: from \<open>zeroMass\<close> the step is intact before and
  after, the clamp does not fire, and the acceleration and both tensions are \<open>NaN\<close>.
\<close>

theorem tension_identity_counterexample:
  "(\<not> isBroken nearTop \<and> \<not> isBroken (updateAtwoodPhysics nearTop 0.016 IDEAL)
    \<and> clampFires nearTop 0.016 IDEAL
    \<and> tension1 (updateAtwoodPhysics nearTop 0.016 IDEAL)
        - tension2 (updateAtwoodPhysics nearTop 0.016 IDEAL)
      \<noteq> (mass1 (updateAtwoodPhysics nearTop 0.016 IDEAL)
           - mass2 (updateAtwoodPhysics nearTop 0.016 IDEAL)) * GRAVITY
        + (mass1 (updateAtwoodPhysics nearTop 0.016 IDEAL)
           + mass2 (updateAtwoodPhysics nearTop 0.016 IDEAL))
          * acceleration (updateAtwoodPhysics nearTop 0.016 IDEAL))
   \<and> (\<not> isBroken zeroMass
      \<and> \<not> js_isBroken (updateAtwoodPhysicsJS zeroMass 0.016 IDEAL)
      \<and> js_acceleration (updateAtwoodPhysicsJS zeroMass 0.016 IDEAL) = NaN
      \<and> js_tension1 (updateAtwoodPhysicsJS zeroMass 0.016 IDEAL) = NaN
      \<and> js_tension2 (updateAtwoodPhysicsJS zeroMass 0.016 IDEAL) = NaN)"
proof (rule conjI)
  show "\<not> isBroken nearTop \<and> \<not> isBroken (updateAtwoodPhysics nearTop 0.016 IDEAL)
    \<and> clampFires nearTop 0.016 IDEAL
    \<and> tension1 (updateAtwoodPhysics nearTop 0.016 IDEAL)
        - tension2 (updateAtwoodPhysics nearTop 0.016 IDEAL)
      \<noteq> (mass1 (updateAtwoodPhysics nearTop 0.016 IDEAL)
           - mass2 (updateAtwoodPhysics nearTop 0.016 IDEAL)) * GRAVITY
        + (mass1 (updateAtwoodPhysics nearTop 0.016 IDEAL)
           + mass2 (updateAtwoodPhysics nearTop 0.016 IDEAL))
          * acceleration (updateAtwoodPhysics nearTop 0.016 IDEAL)"
    using nearTop_clamp unfolding nearTop_step
    by (simp add: nearTop_def INITIAL_ATWOOD_def GRAVITY_def)
qed (rule zeroMass_tick)

text \<open>
  C5, amended. The identity is one of exact real arithmetic, not of the rounded doubles.
  For every intact state whose total inertial mass is not zero: on a tick on which the
  position clamp does not fire, the output satisfies
  \<open>tension1 - tension2 = (mass1 - mass2) * g + (mass1 + mass2) * acceleration\<close>; on a tick on
  which the clamp fires, the output is intact with \<open>acceleration = 0\<close> and \<open>velocity = 0\<close> and
  keeps \<open>tension1\<close>, \<open>tension2\<close> and the masses of the input, so that the identity holds on it
  exactly when the input has \<open>tension1 - tension2 = (mass1 - mass2) * g\<close>. On both ticks the
  tensions and the acceleration the code returns are these finite numbers.
\<close>

theorem tension_identity:
  assumes "\<not> isBroken s" "totalInertialMass s \<noteq> 0"
  shows "(\<not> clampFires s dt mode \<longrightarrow>
            tension1 (updateAtwoodPhysics s dt mode) - tension2 (updateAtwoodPhysics s dt mode)
            = (mass1 (updateAtwoodPhysics s dt mode) - mass2 (updateAtwoodPhysics s dt mode))
                * GRAVITY
              + (mass1 (updateAtwoodPhysics s dt mode) + mass2 (updateAtwoodPhysics s dt mode))
                * acceleration (updateAtwoodPhysics s dt mode))
       \<and> (clampFires s dt mode \<longrightarrow>
            \<not> isBroken (updateAtwoodPhysics s dt mode)
            \<and> acceleration (updateAtwoodPhysics s dt mode) = 0
            \<and> velocity (updateAtwoodPhysics s dt mode) = 0
            \<and> tension1 (updateAtwoodPhysics s dt mode) = tension1 s
            \<and> tension2 (updateAtwoodPhysics s dt mode) = tension2 s
            \<and> mass1 (updateAtwoodPhysics s dt mode) = mass1 s
            \<and> mass2 (updateAtwoodPhysics s dt mode) = mass2 s
            \<and> (tension1 (updateAtwoodPhysics s dt mode)
                  - tension2 (updateAtwoodPhysics s dt mode)
                = (mass1 (updateAtwoodPhysics s dt mode)
                     - mass2 (updateAtwoodPhysics s dt mode)) * GRAVITY
                  + (mass1 (updateAtwoodPhysics s dt mode)
                       + mass2 (updateAtwoodPhysics s dt mode))
                    * acceleration (updateAtwoodPhysics s dt mode)
               \<longleftrightarrow> tension1 s - tension2 s = (mass1 s - mass2 s) * GRAVITY))
       \<and> js_tension1 (updateAtwoodPhysicsJS s dt mode)
            = Fin (tension1 (updateAtwoodPhysics s dt mode))
       \<and> js_tension2 (updateAtwoodPhysicsJS s dt mode)
            = Fin (tension2 (updateAtwoodPhysics s dt mode))
       \<and> js_acceleration (updateAtwoodPhysicsJS s dt mode)
            = Fin (acceleration (updateAtwoodPhysics s dt mode))"
proof -
  have a: "\<not> clampFires s dt mode \<longrightarrow>
            tension1 (updateAtwoodPhysics s dt mode) - tension2 (updateAtwoodPhysics s dt mode)
            = (mass1 (updateAtwoodPhysics s dt mode) - mass2 (updateAtwoodPhysics s dt mode))
                * GRAVITY
              + (mass1 (updateAtwoodPhysics s dt mode) + mass2 (updateAtwoodPhysics s dt mode))
                * acceleration (updateAtwoodPhysics s dt mode)"
    using assms(1) by (simp add: updateAtwoodPhysics_def clampFires_def Let_def algebra_simps)
  have b: "clampFires s dt mode \<longrightarrow>
            \<not> isBroken (updateAtwoodPhysics s dt mode)
            \<and> acceleration (updateAtwoodPhysics s dt mode) = 0
            \<and> velocity (updateAtwoodPhysics s dt mode) = 0
            \<and> tension1 (updateAtwoodPhysics s dt mode) = tension1 s
            \<and> tension2 (updateAtwoodPhysics s dt mode) = tension2 s
            \<and> mass1 (updateAtwoodPhysics s dt mode) = mass1 s
            \<and> mass2 (updateAtwoodPhysics s dt mode) = mass2 s
            \<and> (tension1 (updateAtwoodPhysics s dt mode)
                  - tension2 (updateAtwoodPhysics s dt mode)
                = (mass1 (updateAtwoodPhysics s dt mode)
                     - mass2 (updateAtwoodPhysics s dt mode)) * GRAVITY
                  + (mass1 (updateAtwoodPhysics s dt mode)
                       + mass2 (updateAtwoodPhysics s dt mode))
                    * acceleration (updateAtwoodPhysics s dt mode)
               \<longleftrightarrow> tension1 s - tension2 s = (mass1 s - mass2 s) * GRAVITY)"
    using assms(1) by (auto simp: updateAtwoodPhysics_def clampFires_def Let_def)
  show ?thesis
    using a b updateAtwoodPhysicsJS_fields(5,6,4) [OF assms, of dt mode] by (intro conjI)
qed

theorem tension_identity_witness:
  "tension1 (updateAtwoodPhysics INITIAL_ATWOOD 0.016 IDEAL)
     - tension2 (updateAtwoodPhysics INITIAL_ATWOOD 0.016 IDEAL)
   = (mass1 (updateAtwoodPhysics INITIAL_ATWOOD 0.016 IDEAL)
        - mass2 (updateAtwoodPhysics INITIAL_ATWOOD 0.016 IDEAL)) * GRAVITY
     + (mass1 (updateAtwoodPhysics INITIAL_ATWOOD 0.016 IDEAL)
        + mass2 (updateAtwoodPhysics INITIAL_ATWOOD 0.016 IDEAL))
       * acceleration (updateAtwoodPhysics INITIAL_ATWOOD 0.016 IDEAL)
   \<and> acceleration (updateAtwoodPhysics nearTop 0.016 IDEAL) = 0
   \<and> tension1 (updateAtwoodPhysics nearTop 0.016 IDEAL) = tension1 nearTop
   \<and> tension2 (updateAtwoodPhysics nearTop 0.016 IDEAL) = tension2 nearTop"
proof -
  have i: "\<not> isBroken INITIAL_ATWOOD"
    by (simp add: INITIAL_ATWOOD_def)
  have n: "\<not> isBroken nearTop" "totalInertialMass nearTop \<noteq> 0"
    by (simp_all add: totalInertialMass_def effectivePulleyInertiaMass_def nearTop_def
        INITIAL_ATWOOD_def)
  show ?thesis
    using tension_identity [OF i INITIAL_ATWOOD_inertia, of "0.016" IDEAL]
      tension_identity [OF n, of "0.016" IDEAL] INITIAL_ATWOOD_no_clamp nearTop_clamp
    by (intro conjI) blast+
qed

subsection \<open>A step of length zero\<close>

lemma zero_dt_NaN:
  "js_y1 (updateAtwoodPhysicsJS zeroMass 0 IDEAL) = NaN
   \<and> js_y1 (updateAtwoodPhysicsJS (brokenAtwood\<lparr>mass1 := 0\<rparr>) 0 REAL) = NaN"
  by (simp add: updateAtwoodPhysicsJS_def stepAccelerationJS_def stepVelocityJS_def stictionJS_def
      brokenV1JS_def brokenV2JS_def atwood_force_defs ropeLen_def numbersOf_def jsub_def Let_def
      zeroMass_def brokenAtwood_def INITIAL_ATWOOD_def AIR_RESISTANCE_SCALE_def)

text \<open>
  C6 as stated fails, field by field: a step with \<open>dt = 0\<close> from \<open>INITIAL_ATWOOD\<close>, whose
  tensions are 0, returns the tension the step computes; from a broken state it returns
  velocity 0; from a balanced state (\<open>mass1 = mass2\<close>) it damps the velocity by 0.90; from
  \<open>y1\<close> outside the clamp range it moves \<open>y1\<close> to the stop; and it sets \<open>y2\<close> to
  \<open>ropeLen - y1\<close>. Where a quotient has the denominator zero it returns \<open>NaN\<close> for \<open>y1\<close>:
  from \<open>zeroMass\<close>, and in \<open>REAL\<close> mode from a broken state with \<open>mass1 = 0\<close>.
\<close>

theorem zero_dt_counterexample:
  "(tension1 (updateAtwoodPhysics INITIAL_ATWOOD 0 IDEAL) \<noteq> tension1 INITIAL_ATWOOD
    \<and> velocity (updateAtwoodPhysics brokenAtwood 0 IDEAL) \<noteq> velocity brokenAtwood
    \<and> velocity (updateAtwoodPhysics (INITIAL_ATWOOD\<lparr>mass2 := 2, velocity := 1\<rparr>) 0 IDEAL)
        \<noteq> velocity (INITIAL_ATWOOD\<lparr>mass2 := 2, velocity := 1\<rparr>)
    \<and> y1 (updateAtwoodPhysics (INITIAL_ATWOOD\<lparr>y1 := 0.1\<rparr>) 0 IDEAL)
        \<noteq> y1 (INITIAL_ATWOOD\<lparr>y1 := 0.1\<rparr>)
    \<and> y2 (updateAtwoodPhysics (INITIAL_ATWOOD\<lparr>y2 := 4\<rparr>) 0 IDEAL)
        \<noteq> y2 (INITIAL_ATWOOD\<lparr>y2 := 4\<rparr>))
   \<and> (js_y1 (updateAtwoodPhysicsJS zeroMass 0 IDEAL) = NaN
      \<and> js_y1 (updateAtwoodPhysicsJS (brokenAtwood\<lparr>mass1 := 0\<rparr>) 0 REAL) = NaN)"
proof (rule conjI)
  show "tension1 (updateAtwoodPhysics INITIAL_ATWOOD 0 IDEAL) \<noteq> tension1 INITIAL_ATWOOD
    \<and> velocity (updateAtwoodPhysics brokenAtwood 0 IDEAL) \<noteq> velocity brokenAtwood
    \<and> velocity (updateAtwoodPhysics (INITIAL_ATWOOD\<lparr>mass2 := 2, velocity := 1\<rparr>) 0 IDEAL)
        \<noteq> velocity (INITIAL_ATWOOD\<lparr>mass2 := 2, velocity := 1\<rparr>)
    \<and> y1 (updateAtwoodPhysics (INITIAL_ATWOOD\<lparr>y1 := 0.1\<rparr>) 0 IDEAL)
        \<noteq> y1 (INITIAL_ATWOOD\<lparr>y1 := 0.1\<rparr>)
    \<and> y2 (updateAtwoodPhysics (INITIAL_ATWOOD\<lparr>y2 := 4\<rparr>) 0 IDEAL)
        \<noteq> y2 (INITIAL_ATWOOD\<lparr>y2 := 4\<rparr>)"
    by (simp add: atwood_step_defs atwood_force_defs Let_def INITIAL_ATWOOD_def brokenAtwood_def)
qed (rule zero_dt_NaN)

lemma no_stiction_at_dt0: "\<not> stiction s 0 mode"
  by (simp add: stiction_def)

text \<open>
  C6, amended; the numbers are exact reals. A step with \<open>dt = 0\<close>, in any mode, leaves
  \<open>time\<close> unchanged. From a broken state (with masses that are not zero, in \<open>REAL\<close> mode) it
  leaves \<open>y1\<close> and \<open>y2\<close> unchanged when they are at most 4.5 and moves them to 4.5 otherwise,
  and it sets \<open>velocity\<close>, \<open>tension1\<close> and \<open>tension2\<close> to 0. From an intact state whose
  total inertial mass is not zero: with \<open>y1\<close> in \<open>[0.2, ropeLen - 0.2]\<close> it leaves \<open>y1\<close>
  unchanged, sets \<open>y2\<close> to \<open>ropeLen - y1\<close>, leaves \<open>velocity\<close> unchanged unless the state is
  balanced, where it multiplies it by 0.90, and sets \<open>tension1\<close> and \<open>tension2\<close> to
  \<open>mass1 * (g + a)\<close> and \<open>mass2 * (g - a)\<close> for \<open>a = netForce / totalInertialMass\<close>; with \<open>y1\<close>
  outside that range it moves \<open>y1\<close> to the stop it passed and \<open>y2\<close> to the rest of the rope,
  sets \<open>velocity\<close> to 0 and leaves the tensions unchanged. In each of these cases the code
  returns these finite numbers.
\<close>

theorem zero_dt:
  "time (updateAtwoodPhysics s 0 mode) = time s
   \<and> js_time (updateAtwoodPhysicsJS s 0 mode) = Fin (time s)
   \<and> (isBroken s \<and> (mode = REAL \<longrightarrow> mass1 s \<noteq> 0 \<and> mass2 s \<noteq> 0) \<longrightarrow>
        y1 (updateAtwoodPhysics s 0 mode) = (if y1 s > 4.5 then 4.5 else y1 s)
      \<and> y2 (updateAtwoodPhysics s 0 mode) = (if y2 s > 4.5 then 4.5 else y2 s)
      \<and> velocity (updateAtwoodPhysics s 0 mode) = 0
      \<and> tension1 (updateAtwoodPhysics s 0 mode) = 0
      \<and> tension2 (updateAtwoodPhysics s 0 mode) = 0
      \<and> updateAtwoodPhysicsJS s 0 mode = numbersOf (updateAtwoodPhysics s 0 mode))
   \<and> (\<not> isBroken s \<and> totalInertialMass s \<noteq> 0 \<longrightarrow>
        (0.2 \<le> y1 s \<and> y1 s \<le> ropeLen s - 0.2 \<longrightarrow>
           y1 (updateAtwoodPhysics s 0 mode) = y1 s
         \<and> y2 (updateAtwoodPhysics s 0 mode) = ropeLen s - y1 s
         \<and> velocity (updateAtwoodPhysics s 0 mode)
             = (if isBalanced s then velocity s * 0.90 else velocity s)
         \<and> tension1 (updateAtwoodPhysics s 0 mode)
             = mass1 s * (GRAVITY + netForce s mode / totalInertialMass s)
         \<and> tension2 (updateAtwoodPhysics s 0 mode)
             = mass2 s * (GRAVITY - netForce s mode / totalInertialMass s))
      \<and> (y1 s < 0.2 \<longrightarrow>
           y1 (updateAtwoodPhysics s 0 mode) = 0.2
         \<and> y2 (updateAtwoodPhysics s 0 mode) = ropeLen s - 0.2
         \<and> velocity (updateAtwoodPhysics s 0 mode) = 0
         \<and> tension1 (updateAtwoodPhysics s 0 mode) = tension1 s
         \<and> tension2 (updateAtwoodPhysics s 0 mode) = tension2 s)
      \<and> (\<not> y1 s < 0.2 \<and> y1 s > ropeLen s - 0.2 \<longrightarrow>
           y1 (updateAtwoodPhysics s 0 mode) = ropeLen s - 0.2
         \<and> y2 (updateAtwoodPhysics s 0 mode) = 0.2
         \<and> velocity (updateAtwoodPhysics s 0 mode) = 0
         \<and> tension1 (updateAtwoodPhysics s 0 mode) = tension1 s
         \<and> tension2 (updateAtwoodPhysics s 0 mode) = tension2 s)
      \<and> js_y1 (updateAtwoodPhysicsJS s 0 mode) = Fin (y1 (updateAtwoodPhysics s 0 mode))
      \<and> js_y2 (updateAtwoodPhysicsJS s 0 mode) = Fin (y2 (updateAtwoodPhysics s 0 mode))
      \<and> js_velocity (updateAtwoodPhysicsJS s 0 mode)
           = Fin (velocity (updateAtwoodPhysics s 0 mode))
      \<and> js_tension1 (updateAtwoodPhysicsJS s 0 mode)
           = Fin (tension1 (updateAtwoodPhysics s 0 mode))
      \<and> js_tension2 (updateAtwoodPhysicsJS s 0 mode)
           = Fin (tension2 (updateAtwoodPhysics s 0 mode)))"
proof -
  have t: "time (updateAtwoodPhysics s 0 mode) = time s"
    by (simp add: updateAtwoodPhysics_def Let_def)
  have tj: "js_time (updateAtwoodPhysicsJS s 0 mode) = Fin (time s)"
    by (simp add: updateAtwoodPhysicsJS_def numbersOf_def Let_def)
  have br: "isBroken s \<and> (mode = REAL \<longrightarrow> mass1 s \<noteq> 0 \<and> mass2 s \<noteq> 0) \<longrightarrow>
        y1 (updateAtwoodPhysics s 0 mode) = (if y1 s > 4.5 then 4.5 else y1 s)
      \<and> y2 (updateAtwoodPhysics s 0 mode) = (if y2 s > 4.5 then 4.5 else y2 s)
      \<and> velocity (updateAtwoodPhysics s 0 mode) = 0
      \<and> tension1 (updateAtwoodPhysics s 0 mode) = 0
      \<and> tension2 (updateAtwoodPhysics s 0 mode) = 0
      \<and> updateAtwoodPhysicsJS s 0 mode = numbersOf (updateAtwoodPhysics s 0 mode)"
    using updateAtwoodPhysicsJS_broken [of s mode 0]
    by (simp add: updateAtwoodPhysics_def Let_def)
  have ij: "(0.2 \<le> y1 s \<and> y1 s \<le> ropeLen s - 0.2 \<longrightarrow>
           y1 (updateAtwoodPhysics s 0 mode) = y1 s
         \<and> y2 (updateAtwoodPhysics s 0 mode) = ropeLen s - y1 s
         \<and> velocity (updateAtwoodPhysics s 0 mode)
             = (if isBalanced s then velocity s * 0.90 else velocity s)
         \<and> tension1 (updateAtwoodPhysics s 0 mode)
             = mass1 s * (GRAVITY + netForce s mode / totalInertialMass s)
         \<and> tension2 (updateAtwoodPhysics s 0 mode)
             = mass2 s * (GRAVITY - netForce s mode / totalInertialMass s))
      \<and> (y1 s < 0.2 \<longrightarrow>
           y1 (updateAtwoodPhysics s 0 mode) = 0.2
         \<and> y2 (updateAtwoodPhysics s 0 mode) = ropeLen s - 0.2
         \<and> velocity (updateAtwoodPhysics s 0 mode) = 0
         \<and> tension1 (updateAtwoodPhysics s 0 mode) = tension1 s
         \<and> tension2 (updateAtwoodPhysics s 0 mode) = tension2 s)
      \<and> (\<not> y1 s < 0.2 \<and> y1 s > ropeLen s - 0.2 \<longrightarrow>
           y1 (updateAtwoodPhysics s 0 mode) = ropeLen s - 0.2
         \<and> y2 (updateAtwoodPhysics s 0 mode) = 0.2
         \<and> velocity (updateAtwoodPhysics s 0 mode) = 0
         \<and> tension1 (updateAtwoodPhysics s 0 mode) = tension1 s
         \<and> tension2 (updateAtwoodPhysics s 0 mode) = tension2 s)
      \<and> js_y1 (updateAtwoodPhysicsJS s 0 mode) = Fin (y1 (updateAtwoodPhysics s 0 mode))
      \<and> js_y2 (updateAtwoodPhysicsJS s 0 mode) = Fin (y2 (updateAtwoodPhysics s 0 mode))
      \<and> js_velocity (updateAtwoodPhysicsJS s 0 mode)
           = Fin (velocity (updateAtwoodPhysics s 0 mode))
      \<and> js_tension1 (updateAtwoodPhysicsJS s 0 mode)
           = Fin (tension1 (updateAtwoodPhysics s 0 mode))
      \<and> js_tension2 (updateAtwoodPhysicsJS s 0 mode)
           = Fin (tension2 (updateAtwoodPhysics s 0 mode))"
    if h: "\<not> isBroken s \<and> totalInertialMass s \<noteq> 0"
  proof -
    have i: "\<not> isBroken s" and m: "totalInertialMass s \<noteq> 0"
      using h by simp_all
    have c1: "0.2 \<le> y1 s \<and> y1 s \<le> ropeLen s - 0.2 \<longrightarrow>
           y1 (updateAtwoodPhysics s 0 mode) = y1 s
         \<and> y2 (updateAtwoodPhysics s 0 mode) = ropeLen s - y1 s
         \<and> velocity (updateAtwoodPhysics s 0 mode)
             = (if isBalanced s then velocity s * 0.90 else velocity s)
         \<and> tension1 (updateAtwoodPhysics s 0 mode)
             = mass1 s * (GRAVITY + netForce s mode / totalInertialMass s)
         \<and> tension2 (updateAtwoodPhysics s 0 mode)
             = mass2 s * (GRAVITY - netForce s mode / totalInertialMass s)"
      using i
      by (simp add: updateAtwoodPhysics_def stepAcceleration_def stepVelocity_def
          no_stiction_at_dt0 Let_def)
    have c2: "y1 s < 0.2 \<longrightarrow>
           y1 (updateAtwoodPhysics s 0 mode) = 0.2
         \<and> y2 (updateAtwoodPhysics s 0 mode) = ropeLen s - 0.2
         \<and> velocity (updateAtwoodPhysics s 0 mode) = 0
         \<and> tension1 (updateAtwoodPhysics s 0 mode) = tension1 s
         \<and> tension2 (updateAtwoodPhysics s 0 mode) = tension2 s"
      using i
      by (simp add: updateAtwoodPhysics_def stepAcceleration_def stepVelocity_def
          no_stiction_at_dt0 Let_def)
    have c3: "\<not> y1 s < 0.2 \<and> y1 s > ropeLen s - 0.2 \<longrightarrow>
           y1 (updateAtwoodPhysics s 0 mode) = ropeLen s - 0.2
         \<and> y2 (updateAtwoodPhysics s 0 mode) = 0.2
         \<and> velocity (updateAtwoodPhysics s 0 mode) = 0
         \<and> tension1 (updateAtwoodPhysics s 0 mode) = tension1 s
         \<and> tension2 (updateAtwoodPhysics s 0 mode) = tension2 s"
      using i
      by (simp add: updateAtwoodPhysics_def stepAcceleration_def stepVelocity_def
          no_stiction_at_dt0 Let_def)
    show ?thesis
      by (intro conjI c1 c2 c3 updateAtwoodPhysicsJS_fields(1,2,3,5,6) [OF i m])
  qed
  show ?thesis
    by (intro conjI t tj br) (rule impI, erule ij)
qed

lemma brokenAtwood_facts:
  "isBroken brokenAtwood" "mass1 brokenAtwood \<noteq> 0" "mass2 brokenAtwood \<noteq> 0"
  "y1 brokenAtwood \<le> 4.5" "y2 brokenAtwood \<le> 4.5"
  by (simp_all add: brokenAtwood_def INITIAL_ATWOOD_def)

theorem zero_dt_witness:
  "y1 (updateAtwoodPhysics INITIAL_ATWOOD 0 REAL) = y1 INITIAL_ATWOOD
   \<and> y2 (updateAtwoodPhysics INITIAL_ATWOOD 0 REAL) = y2 INITIAL_ATWOOD
   \<and> velocity (updateAtwoodPhysics INITIAL_ATWOOD 0 REAL) = velocity INITIAL_ATWOOD
   \<and> time (updateAtwoodPhysics INITIAL_ATWOOD 0 REAL) = time INITIAL_ATWOOD
   \<and> tension1 (updateAtwoodPhysics INITIAL_ATWOOD 0 REAL) = 2 * (9.81 + 9.81 / 5.5)
   \<and> tension2 (updateAtwoodPhysics INITIAL_ATWOOD 0 REAL) = 3 * (9.81 - 9.81 / 5.5)
   \<and> js_tension1 (updateAtwoodPhysicsJS INITIAL_ATWOOD 0 REAL)
       = Fin (tension1 (updateAtwoodPhysics INITIAL_ATWOOD 0 REAL))
   \<and> y1 (updateAtwoodPhysics brokenAtwood 0 REAL) = y1 brokenAtwood
   \<and> y2 (updateAtwoodPhysics brokenAtwood 0 REAL) = y2 brokenAtwood
   \<and> velocity (updateAtwoodPhysics brokenAtwood 0 REAL) = 0"
proof -
  have h: "\<not> isBroken INITIAL_ATWOOD" "0.2 \<le> y1 INITIAL_ATWOOD"
    "y1 INITIAL_ATWOOD \<le> ropeLen INITIAL_ATWOOD - 0.2"
    "ropeLen INITIAL_ATWOOD - y1 INITIAL_ATWOOD = y2 INITIAL_ATWOOD"
    "\<not> isBalanced INITIAL_ATWOOD"
    by (simp_all add: INITIAL_ATWOOD_def isBalanced_def ropeLen_def)
  have nf: "netForce INITIAL_ATWOOD REAL / totalInertialMass INITIAL_ATWOOD = 9.81 / 5.5"
    by (simp add: atwood_force_defs Let_def INITIAL_ATWOOD_def)
  have m: "mass1 INITIAL_ATWOOD = 2" "mass2 INITIAL_ATWOOD = 3"
    by (simp_all add: INITIAL_ATWOOD_def)
  have a: "time (updateAtwoodPhysics INITIAL_ATWOOD 0 REAL) = time INITIAL_ATWOOD
   \<and> y1 (updateAtwoodPhysics INITIAL_ATWOOD 0 REAL) = y1 INITIAL_ATWOOD
   \<and> y2 (updateAtwoodPhysics INITIAL_ATWOOD 0 REAL) = y2 INITIAL_ATWOOD
   \<and> velocity (updateAtwoodPhysics INITIAL_ATWOOD 0 REAL) = velocity INITIAL_ATWOOD
   \<and> tension1 (updateAtwoodPhysics INITIAL_ATWOOD 0 REAL) = 2 * (9.81 + 9.81 / 5.5)
   \<and> tension2 (updateAtwoodPhysics INITIAL_ATWOOD 0 REAL) = 3 * (9.81 - 9.81 / 5.5)
   \<and> js_tension1 (updateAtwoodPhysicsJS INITIAL_ATWOOD 0 REAL)
       = Fin (tension1 (updateAtwoodPhysics INITIAL_ATWOOD 0 REAL))"
    using zero_dt [of INITIAL_ATWOOD REAL] h INITIAL_ATWOOD_inertia
    unfolding nf m GRAVITY_def by simp
  have b: "y1 (updateAtwoodPhysics brokenAtwood 0 REAL) = y1 brokenAtwood
   \<and> y2 (updateAtwoodPhysics brokenAtwood 0 REAL) = y2 brokenAtwood
   \<and> velocity (updateAtwoodPhysics brokenAtwood 0 REAL) = 0"
    using zero_dt [of brokenAtwood REAL] brokenAtwood_facts by simp
  show ?thesis
    using a b by (intro conjI) simp_all
qed

subsection \<open>The broken branch\<close>



lemma atwood_broken_stays:
  "isBroken a \<Longrightarrow> isBroken (updateAtwoodPhysics a dt mode)"
  by (simp add: updateAtwoodPhysics_def Let_def)

section \<open>Termination of the traversals\<close>

subsection \<open>\<open>findConnectedLoads\<close>\<close>

lemma visitNeighbor_measure:
  assumes "finite N" "n \<in> N"
  shows "bfsMeasure N (visitNeighbor bc n vq) \<le> bfsMeasure N vq"
proof (cases "n \<notin> fst vq \<and> \<not> bc n")
  case True
  then have n: "n \<in> N - fst vq"
    using assms(2) by simp
  have "N - insert n (fst vq) = (N - fst vq) - {n}"
    by auto
  then have "card (N - insert n (fst vq)) = card (N - fst vq) - 1"
    using n assms(1) by simp
  moreover have "card (N - fst vq) > 0"
    using n assms(1) by (metis card_gt_0_iff empty_iff finite_Diff)
  ultimately show ?thesis
    using True by (simp add: bfsMeasure_def visitNeighbor_def)
next
  case False
  then show ?thesis
    by (auto simp: visitNeighbor_def)
qed

lemma scanSegment_measure:
  assumes "finite N" "fromId r \<in> N" "toId r \<in> N"
  shows "bfsMeasure N (scanSegment c bc vq r) \<le> bfsMeasure N vq"
  using visitNeighbor_measure [OF assms(1,3), of bc vq]
    visitNeighbor_measure [OF assms(1,2), of bc vq]
    visitNeighbor_measure [OF assms(1,2), of bc "visitNeighbor bc (toId r) vq"]
  by (auto simp: scanSegment_def Let_def)

lemma foldl_scanSegment_measure:
  assumes "finite N" "\<forall>r \<in> set rs. fromId r \<in> N \<and> toId r \<in> N"
  shows "bfsMeasure N (foldl (scanSegment c bc) vq rs) \<le> bfsMeasure N vq"
  using assms(2)
proof (induction rs arbitrary: vq)
  case Nil
  then show ?case by simp
next
  case (Cons r rs)
  have "bfsMeasure N (foldl (scanSegment c bc) (scanSegment c bc vq r) rs)
        \<le> bfsMeasure N (scanSegment c bc vq r)"
    using Cons by simp
  also have "\<dots> \<le> bfsMeasure N vq"
    using Cons.prems by (intro scanSegment_measure [OF assms(1)]) simp_all
  finally show ?case by simp
qed

lemma findConnectedLoads_loop_returns:
  "\<exists>res. findConnectedLoads_loop ls ropes bc result visited queue = Some res"
proof (induction "bfsMeasure (ropeNodes ropes) (visited, queue)"
    arbitrary: result visited queue rule: less_induct)
  case less
  show ?case
  proof (cases queue)
    case Nil
    then show ?thesis
      by (subst findConnectedLoads_loop.simps) simp
  next
    case (Cons c rest)
    let ?vq = "foldl (scanSegment c bc) (visited, rest) ropes"
    have fin: "finite (ropeNodes ropes)"
      by (simp add: ropeNodes_def)
    have "\<forall>r \<in> set ropes. fromId r \<in> ropeNodes ropes \<and> toId r \<in> ropeNodes ropes"
      by (simp add: ropeNodes_def)
    then have "bfsMeasure (ropeNodes ropes) ?vq \<le> bfsMeasure (ropeNodes ropes) (visited, rest)"
      by (rule foldl_scanSegment_measure [OF fin])
    also have "\<dots> < bfsMeasure (ropeNodes ropes) (visited, queue)"
      using Cons by (simp add: bfsMeasure_def)
    finally have "bfsMeasure (ropeNodes ropes) (fst ?vq, snd ?vq)
                  < bfsMeasure (ropeNodes ropes) (visited, queue)"
      by simp
    from less [OF this]
    obtain res where
      "findConnectedLoads_loop ls ropes bc (pushLoad ls c result) (fst ?vq) (snd ?vq) = Some res"
      by blast
    then show ?thesis
      using Cons by (subst findConnectedLoads_loop.simps) simp
  qed
qed

lemma findConnectedLoads_returns: "\<exists>res. findConnectedLoads s startIds bc = Some res"
  unfolding findConnectedLoads_def by (rule findConnectedLoads_loop_returns)

subsection \<open>\<open>getSide\<close>\<close>

lemma scanRopes_queue:
  "scanRopes fids ls c rs q = Inr q' \<Longrightarrow> set q' \<subseteq> set q \<union> set (map l_id ls)"
proof (induction rs arbitrary: q)
  case Nil
  then show ?case by auto
next
  case (Cons r rs)
  then show ?case
    by (fastforce simp: Let_def split: if_splits option.splits)
qed

lemma sideMeasure_skip: "sideMeasure s rest visited \<le> sideMeasure s (c # rest) visited"
  unfolding sideMeasure_def by (intro card_mono) auto

lemma sideMeasure_visit:
  assumes "c \<notin> visited" "set q' \<subseteq> set rest \<union> set (map l_id (loads s))"
  shows "sideMeasure s q' (insert c visited) < sideMeasure s (c # rest) visited"
  unfolding sideMeasure_def using assms by (intro psubset_card_mono) auto

text \<open>
  The outer induction is on the number of ids that may still be visited, the inner one on
  the queue, for the iterations that skip a visited id.
\<close>

lemma getSide_loop_bounded:
  "sideMeasure s q visited \<le> n \<Longrightarrow> \<exists>side. getSide_loop s q visited = Some side"
proof (induction n arbitrary: q visited rule: less_induct)
  case (less n)
  from less.prems show ?case
  proof (induction q)
    case Nil
    show ?case
      by (subst getSide_loop.simps) simp
  next
    case (Cons c rest)
    show ?case
    proof (cases "c \<in> visited")
      case True
      have "sideMeasure s rest visited \<le> n"
        using sideMeasure_skip [of s rest visited c] Cons.prems by simp
      from Cons.IH [OF this] obtain side where "getSide_loop s rest visited = Some side" ..
      then show ?thesis
        using True by (subst getSide_loop.simps) simp
    next
      case False
      let ?scan = "scanRopes (fixedIds s) (loads s) c
                     (filter (\<lambda>r. fromId r = c \<or> toId r = c) (ropeSegments s)) rest"
      show ?thesis
      proof (cases ?scan)
        case (Inl side)
        then show ?thesis
          using False by (subst getSide_loop.simps) simp
      next
        case (Inr q')
        have "set q' \<subseteq> set rest \<union> set (map l_id (loads s))"
          using scanRopes_queue [OF Inr] .
        then have "sideMeasure s q' (insert c visited) < sideMeasure s (c # rest) visited"
          by (rule sideMeasure_visit [OF False])
        then have "sideMeasure s q' (insert c visited) < n"
          using Cons.prems by simp
        from less.IH [OF this order_refl]
        obtain side where "getSide_loop s q' (insert c visited) = Some side" ..
        then show ?thesis
          using False Inr by (subst getSide_loop.simps) simp
      qed
    qed
  qed
qed

lemma getSide_returns: "\<exists>side. getSide s startLoadId = Some side"
  unfolding getSide_def by (rule getSide_loop_bounded [OF order_refl])

subsection \<open>The groups\<close>

lemma assignSides_eq:
  "assignSides s ls groups =
     Some (fst groups
             @ filter (\<lambda>l. getSide s (l_id l) = Some (- 1) \<or> getSide s (l_id l) = Some 0) ls,
           snd groups @ filter (\<lambda>l. getSide s (l_id l) = Some 1) ls)"
proof (induction ls arbitrary: groups)
  case Nil
  show ?case by simp
next
  case (Cons l ls)
  obtain side where side: "getSide s (l_id l) = Some side"
    using getSide_returns by blast
  show ?case
    by (simp add: side Cons.IH)
qed

lemma loadGroups_returns: "\<exists>groups. loadGroups s = Some groups"
proof (cases "length (movableIds s) > 0")
  case True
  obtain ga where ga: "findConnectedLoads s (movableIds s) (isFixedOrAnchor s) = Some ga"
    using findConnectedLoads_returns by blast
  obtain gc where gc: "findConnectedLoads s (fixedIds s @ anchorIds s) (isMovable s) = Some gc"
    using findConnectedLoads_returns by blast
  show ?thesis
    using True ga gc by (simp add: loadGroups_def)
next
  case False
  then show ?thesis
    by (simp add: loadGroups_def assignSides_eq)
qed

text \<open>
  C8. Both step functions return a state for every input state, every \<open>dt\<close> and every mode:
  \<open>updateAtwoodPhysics\<close> has no loop and no failing operation, and \<open>updateSandboxPhysics\<close>
  returns because its traversals do: the loop of \<open>findConnectedLoads\<close> from any start ids
  with any boundary test, and the walk of \<open>getSide\<close> from any id.
\<close>

theorem step_total:
  "(\<exists>a'. updateAtwoodPhysics a dt mode = a')
   \<and> (\<exists>s'. updateSandboxPhysics s dt mode = Some s')
   \<and> (\<exists>res. findConnectedLoads s startIds bc = Some res)
   \<and> (\<exists>side. getSide s startLoadId = Some side)"
proof -
  obtain groups where "loadGroups s = Some groups"
    using loadGroups_returns by blast
  then have "\<exists>s'. updateSandboxPhysics s dt mode = Some s'"
    by (simp add: updateSandboxPhysics_def)
  then show ?thesis
    using findConnectedLoads_returns getSide_returns by simp
qed

theorem step_total_witness:
  "(\<exists>a'. updateAtwoodPhysics INITIAL_ATWOOD 0.016 REAL = a')
   \<and> (\<exists>s'. updateSandboxPhysics tiedBlocks 0.016 REAL = Some s')
   \<and> (\<exists>res. findConnectedLoads tiedBlocks [''load-1''] (isFixedOrAnchor tiedBlocks) = Some res)
   \<and> (\<exists>side. getSide tiedBlocks ''load-1'' = Some side)"
  using step_total [where a = INITIAL_ATWOOD and dt = "0.016" and mode = REAL and s = tiedBlocks
      and startIds = "[''load-1'']" and bc = "isFixedOrAnchor tiedBlocks"
      and startLoadId = "''load-1''"] .

section \<open>Properties of the sandbox step\<close>

lemmas sandbox_force_defs =
  MassLoad_def MassCounter_def estimatedMA_def ForcePull_def MassPullInertia_def ForceLoad_def
  totalWeight_def numPulleys_def sandboxFrictionForce_def staticDriveForce_def
  sandboxIsBalanced_def NetForce_def EffectiveMass_def sandboxAcceleration_def pulleyWeight_def
  GRAVITY_def FRICTION_SCALE_def AIR_RESISTANCE_SCALE_def

lemma scenario_B_velocity:
  assumes "\<not> SandboxState.isBroken s"
    and "length (movablePulleys s) = 1" "length (fixedPulleys s) = 1"
    and "l_mass l = 10"
    and "effortForce s = 50" "friction s = 0" "loadVelocity s = 0"
  shows "newRopeVelocity s dt IDEAL [l] [] = max (- 50) (min 50 (0.95 / 3.5 * dt))"
    and "\<not> sandboxBroken s dt IDEAL [l] []"
    and "finalAcceleration s dt IDEAL [l] [] = (if boundaryHit s dt IDEAL [l] [] then 0 else 0.95 / 3.5)"
proof -
  have em: "EffectiveMass s IDEAL [l] [] = 3.5"
    using assms(2,4) by (simp add: sandbox_force_defs)
  have nf: "NetForce s IDEAL [l] [] = 0.95"
    using assms(2-7) by (simp add: sandbox_force_defs Let_def)
  have acc: "sandboxAcceleration s IDEAL [l] [] = 0.95 / 3.5"
    unfolding sandboxAcceleration_def nf em using assms(1) by simp
  have nb: "\<not> sandboxIsBalanced s IDEAL [l] []"
    by (simp add: sandboxIsBalanced_def MassCounter_def)
  have ns: "\<not> sandboxStiction s dt IDEAL [l] []"
    using assms(7) by (simp add: sandboxStiction_def Let_def)
  show "newRopeVelocity s dt IDEAL [l] [] = max (- 50) (min 50 (0.95 / 3.5 * dt))"
    unfolding newRopeVelocity_def Let_def acc using nb ns assms(7) by (simp add: max_def min_def)
  show "\<not> sandboxBroken s dt IDEAL [l] []"
    using assms(1) by (simp add: sandboxBroken_def)
  show "finalAcceleration s dt IDEAL [l] [] = (if boundaryHit s dt IDEAL [l] [] then 0 else 0.95 / 3.5)"
    unfolding finalAcceleration_def acc using ns by simp
qed


text \<open>
  C2. Scenario B: an intact state with one movable pulley and one fixed pulley, whose groups
  are a single load of 10 kg in group A and an empty group B, with \<open>effortForce = 50\<close>,
  \<open>friction = 0\<close> and \<open>loadVelocity = 0\<close>, stepped in \<open>IDEAL\<close> mode, has mechanical advantage
  2, pull inertia 0, effective mass \<open>0 + 10 / 4 + 1 = 3.5\<close>, net force
  \<open>50 - (10 * 9.81) / 2 = 0.95\<close>, and the step computes the acceleration \<open>0.95 / 3.5\<close>, which
  is \<open>0.271\<close> to three decimals. The step returns, and what it returns shows this
  acceleration: unless the state is being dragged, the state returned is intact, its
  \<open>loadVelocity\<close> is \<open>0.95 / 3.5 * dt\<close> limited to \<open>[-50, 50]\<close>, and its \<open>loadPosition\<close> has
  advanced by that velocity times \<open>dt\<close>; on a tick that the boundary check vetoes, the step
  sets velocity and acceleration to 0 instead.
\<close>

theorem scenario_B:
  assumes "\<not> SandboxState.isBroken s"
    and "length (movablePulleys s) = 1" "length (fixedPulleys s) = 1"
    and "loadGroups s = Some ([l], [])" "l_mass l = 10"
    and "effortForce s = 50" "friction s = 0" "loadVelocity s = 0"
  shows "estimatedMA s = 2
       \<and> MassPullInertia [] = 0
       \<and> EffectiveMass s IDEAL [l] [] = 3.5
       \<and> NetForce s IDEAL [l] [] = 0.95
       \<and> sandboxAcceleration s IDEAL [l] [] = 0.95 / 3.5
       \<and> \<bar>sandboxAcceleration s IDEAL [l] [] - 0.271\<bar> < 0.0005
       \<and> finalAcceleration s dt IDEAL [l] []
           = (if boundaryHit s dt IDEAL [l] [] then 0 else 0.95 / 3.5)
       \<and> (\<exists>s'. updateSandboxPhysics s dt IDEAL = Some s'
             \<and> (isDragging s \<longrightarrow> s' = s)
             \<and> (\<not> isDragging s \<longrightarrow>
                  \<not> SandboxState.isBroken s'
                  \<and> loadVelocity s'
                      = (if boundaryHit s dt IDEAL [l] [] then 0
                         else max (- 50) (min 50 (0.95 / 3.5 * dt)))
                  \<and> loadPosition s' = loadPosition s + loadVelocity s' * dt))"
proof -
  have ma: "estimatedMA s = 2"
    using assms(2) by (simp add: estimatedMA_def)
  have em: "EffectiveMass s IDEAL [l] [] = 3.5"
    using assms(2,5) by (simp add: sandbox_force_defs)
  have nf: "NetForce s IDEAL [l] [] = 0.95"
    using assms(2,3,5-8) by (simp add: sandbox_force_defs Let_def)
  have acc: "sandboxAcceleration s IDEAL [l] [] = 0.95 / 3.5"
    unfolding sandboxAcceleration_def nf em using assms(1) by simp
  have near: "\<bar>sandboxAcceleration s IDEAL [l] [] - 0.271\<bar> < 0.0005"
    unfolding acc by simp
  note v = scenario_B_velocity [OF assms(1-3) assms(5-8), of dt]
  have step: "\<exists>s'. updateSandboxPhysics s dt IDEAL = Some s'
             \<and> (isDragging s \<longrightarrow> s' = s)
             \<and> (\<not> isDragging s \<longrightarrow>
                  \<not> SandboxState.isBroken s'
                  \<and> loadVelocity s'
                      = (if boundaryHit s dt IDEAL [l] [] then 0
                         else max (- 50) (min 50 (0.95 / 3.5 * dt)))
                  \<and> loadPosition s' = loadPosition s + loadVelocity s' * dt)"
  proof (cases "isDragging s")
    case True
    then show ?thesis
      by (simp add: updateSandboxPhysics_def)
  next
    case False
    have "updateSandboxPhysics s dt IDEAL = Some (sandboxStep s dt IDEAL [l] [])"
      using False assms(4) by (simp add: updateSandboxPhysics_def)
    moreover have "\<not> SandboxState.isBroken (sandboxStep s dt IDEAL [l] [])"
      using v(2) by (simp add: sandboxStep_def Let_def)
    moreover have "loadVelocity (sandboxStep s dt IDEAL [l] [])
                   = (if boundaryHit s dt IDEAL [l] [] then 0
                      else max (- 50) (min 50 (0.95 / 3.5 * dt)))"
      using v(2) unfolding sandboxStep_def Let_def finalRopeVelocity_def v(1) by simp
    moreover have "loadPosition (sandboxStep s dt IDEAL [l] [])
                   = loadPosition s + loadVelocity (sandboxStep s dt IDEAL [l] []) * dt"
      using v(2) by (simp add: sandboxStep_def Let_def)
    ultimately show ?thesis
      using False by simp
  qed
  show ?thesis
    using ma em nf acc near v(3) step by (simp add: MassPullInertia_def MassCounter_def)
qed

lemma scenarioB_groups: "loadGroups scenarioB = Some ([loadLift], [])"
  by (simp add: loadGroups_def findConnectedLoads_def findConnectedLoads_loop.simps
      movableIds_def fixedIds_def anchorIds_def isFixedOrAnchor_def isMovable_def
      scanSegment_def visitNeighbor_def pushLoad_def Let_def
      scenarioB_def INITIAL_SANDBOX_def loadLift_def)

lemmas sandbox_boundary_defs =
  boundaryHit_def deltaRope_def newRopeVelocity_def sandboxStiction_def crosses_def ceilingY_def
  floorY_def METERS_TO_PIXELS_def

lemma atCeiling_groups: "loadGroups atCeiling = Some ([loadLift], [])"
  by (simp add: loadGroups_def findConnectedLoads_def findConnectedLoads_loop.simps
      movableIds_def fixedIds_def anchorIds_def isFixedOrAnchor_def isMovable_def
      scanSegment_def visitNeighbor_def pushLoad_def Let_def
      atCeiling_def scenarioB_def INITIAL_SANDBOX_def loadLift_def)

lemma scenarioB_free: "\<not> boundaryHit scenarioB 0.016 IDEAL [loadLift] []"
  by (simp add: sandbox_boundary_defs sandbox_force_defs Let_def
      scenarioB_def INITIAL_SANDBOX_def loadLift_def)

lemma atCeiling_hit: "boundaryHit atCeiling 0.016 IDEAL [loadLift] []"
  by (simp add: sandbox_boundary_defs sandbox_force_defs Let_def
      atCeiling_def scenarioB_def INITIAL_SANDBOX_def loadLift_def)


theorem scenario_B_witness:
  "sandboxAcceleration scenarioB IDEAL [loadLift] [] = 0.95 / 3.5
   \<and> (\<exists>s'. updateSandboxPhysics scenarioB 0.016 IDEAL = Some s'
          \<and> loadVelocity s' = 0.95 / 3.5 * 0.016)
   \<and> (\<exists>s'. updateSandboxPhysics atCeiling 0.016 IDEAL = Some s' \<and> loadVelocity s' = 0)"
proof -
  have b: "\<not> SandboxState.isBroken scenarioB" "length (movablePulleys scenarioB) = 1"
    "length (fixedPulleys scenarioB) = 1" "l_mass loadLift = 10" "effortForce scenarioB = 50"
    "friction scenarioB = 0" "loadVelocity scenarioB = 0" "\<not> isDragging scenarioB"
    by (simp_all add: scenarioB_def INITIAL_SANDBOX_def loadLift_def)
  have c: "\<not> SandboxState.isBroken atCeiling" "length (movablePulleys atCeiling) = 1"
    "length (fixedPulleys atCeiling) = 1" "effortForce atCeiling = 50"
    "friction atCeiling = 0" "loadVelocity atCeiling = 0" "\<not> isDragging atCeiling"
    by (simp_all add: atCeiling_def scenarioB_def INITIAL_SANDBOX_def)
  have "sandboxAcceleration scenarioB IDEAL [loadLift] [] = 0.95 / 3.5
        \<and> (\<exists>s'. updateSandboxPhysics scenarioB 0.016 IDEAL = Some s'
               \<and> loadVelocity s' = 0.95 / 3.5 * 0.016)"
    using scenario_B [OF b(1-3) scenarioB_groups b(4-7), of "0.016"] b(8) scenarioB_free
    by auto
  moreover have "\<exists>s'. updateSandboxPhysics atCeiling 0.016 IDEAL = Some s' \<and> loadVelocity s' = 0"
    using scenario_B [OF c(1-3) atCeiling_groups b(4) c(4-6), of "0.016"] c(7) atCeiling_hit
    by auto
  ultimately show ?thesis
    by simp
qed

subsection \<open>Breakage and dragging\<close>

lemma sandboxStep_isBroken:
  "SandboxState.isBroken (sandboxStep s dt mode A B) = sandboxBroken s dt mode A B"
  by (simp add: sandboxStep_def Let_def)

text \<open>
  C3. Breakage is monotonic in both step functions: from a state with \<open>isBroken = true\<close>,
  for every \<open>dt\<close> and every mode, the step returns a state with \<open>isBroken = true\<close>.
\<close>

theorem breakage_monotonic:
  "(isBroken a \<longrightarrow> isBroken (updateAtwoodPhysics a dt mode))
   \<and> (SandboxState.isBroken s \<longrightarrow>
        (\<exists>s'. updateSandboxPhysics s dt mode = Some s' \<and> SandboxState.isBroken s'))"
proof -
  have "\<exists>s'. updateSandboxPhysics s dt mode = Some s' \<and> SandboxState.isBroken s'"
    if b: "SandboxState.isBroken s"
  proof (cases "isDragging s")
    case True
    then show ?thesis
      using b by (simp add: updateSandboxPhysics_def)
  next
    case False
    obtain groups where "loadGroups s = Some groups"
      using loadGroups_returns by blast
    then show ?thesis
      using False b
      by (simp add: updateSandboxPhysics_def sandboxStep_isBroken sandboxBroken_def)
  qed
  then show ?thesis
    using atwood_broken_stays by blast
qed

theorem breakage_monotonic_witness:
  "isBroken (updateAtwoodPhysics brokenAtwood 0.016 REAL)
   \<and> (\<exists>s'. updateSandboxPhysics (scenarioB\<lparr>SandboxState.isBroken := True\<rparr>) 0.016 REAL = Some s'
          \<and> SandboxState.isBroken s')"
  using breakage_monotonic
    [of brokenAtwood "0.016" REAL "scenarioB\<lparr>SandboxState.isBroken := True\<rparr>"]
  by (simp add: brokenAtwood_def)

text \<open>
  C9. While the user drags (\<open>isDragging = true\<close>), for every \<open>dt\<close> and every mode, the step
  returns the input state itself, every field unchanged.
\<close>

theorem dragging_frame:
  "isDragging s \<Longrightarrow> updateSandboxPhysics s dt mode = Some s"
  by (simp add: updateSandboxPhysics_def)

theorem dragging_frame_witness:
  "updateSandboxPhysics (scenarioB\<lparr>isDragging := True\<rparr>) 0.016 REAL
     = Some (scenarioB\<lparr>isDragging := True\<rparr>)"
  using dragging_frame [of "scenarioB\<lparr>isDragging := True\<rparr>" "0.016" REAL] by simp

subsection \<open>The partition without movable pulleys\<close>

lemma tiedBlocks_sides:
  "getSide tiedBlocks ''load-1'' = Some 0" "getSide tiedBlocks ''load-2'' = Some 0"
  by (simp_all add: getSide_def getSide_loop.simps fixedIds_def tiedBlocks_def
      INITIAL_SANDBOX_def block1_def block2_def Let_def)

lemma tiedBlocks_connected: "connectedLoads tiedBlocks = [block1, block2]"
  by (simp add: connectedLoads_def tiedBlocks_def INITIAL_SANDBOX_def block1_def block2_def)

text \<open>
  C7 as stated fails in its last part: two blocks tied to each other, in a sandbox with no
  pulley and no anchor at all, have no path to a pulley or an anchor, and both are placed
  in group A.
\<close>

theorem side_partition_counterexample:
  "movablePulleys tiedBlocks = [] \<and> fixedPulleys tiedBlocks = [] \<and> anchors tiedBlocks = []
   \<and> loadGroups tiedBlocks = Some ([block1, block2], [])"
proof -
  have e: "movablePulleys tiedBlocks = []" "fixedPulleys tiedBlocks = []"
    "anchors tiedBlocks = []"
    by (simp_all add: tiedBlocks_def INITIAL_SANDBOX_def)
  have ids: "l_id block1 = ''load-1''" "l_id block2 = ''load-2''"
    by (simp_all add: block1_def block2_def)
  have "loadGroups tiedBlocks = Some ([block1, block2], [])"
    by (simp add: loadGroups_def movableIds_def e tiedBlocks_connected ids tiedBlocks_sides)
  then show ?thesis
    using e by simp
qed

lemma find_filter:
  "find P (filter Q xs) = find (\<lambda>x. Q x \<and> P x) xs"
  by (induction xs) simp_all

lemma scanRopes_Inl:
  "scanRopes fids ls c rs q = Inl v \<Longrightarrow>
     \<exists>r. find (\<lambda>r. otherEnd r c \<in> set fids) rs = Some r \<and> v = sideAt r (otherEnd r c)"
proof (induction rs arbitrary: q)
  case Nil
  then show ?case by simp
next
  case (Cons r rs)
  show ?case
  proof (cases "otherEnd r c \<in> set fids")
    case True
    then have "scanRopes fids ls c (r # rs) q = Inl (sideAt r (otherEnd r c))"
      by (simp add: otherEnd_def sideAt_def Let_def split: option.splits)
    then show ?thesis
      using Cons.prems True by simp
  next
    case False
    then have "scanRopes fids ls c (r # rs) q
               = scanRopes fids ls c rs
                   (if otherEnd r c \<in> set (map l_id ls) then q @ [otherEnd r c] else q)"
      by (simp add: otherEnd_def Let_def)
    then show ?thesis
      using Cons.prems Cons.IH False by auto
  qed
qed

lemma scanRopes_Inr:
  "scanRopes fids ls c rs q = Inr q' \<Longrightarrow>
     (\<forall>r \<in> set rs. otherEnd r c \<notin> set fids)
     \<and> q' = q @ filter (\<lambda>d. d \<in> set (map l_id ls)) (map (\<lambda>r. otherEnd r c) rs)"
proof (induction rs arbitrary: q)
  case Nil
  then show ?case by simp
next
  case (Cons r rs)
  show ?case
  proof (cases "otherEnd r c \<in> set fids")
    case True
    then have "scanRopes fids ls c (r # rs) q = Inl (sideAt r (otherEnd r c))"
      by (simp add: otherEnd_def sideAt_def Let_def split: option.splits)
    then show ?thesis
      using Cons.prems by simp
  next
    case False
    let ?q = "if otherEnd r c \<in> set (map l_id ls) then q @ [otherEnd r c] else q"
    have "scanRopes fids ls c (r # rs) q = scanRopes fids ls c rs ?q"
      using False by (simp add: otherEnd_def Let_def)
    then have "scanRopes fids ls c rs ?q = Inr q'"
      using Cons.prems by simp
    from Cons.IH [OF this] show ?thesis
      using False by simp
  qed
qed

lemma bfs_frontier:
  assumes "bfsInv s i ql lab visited" "walks s i m e"
  shows "e \<notin> visited \<longrightarrow> (\<exists>p \<in> set ql. snd p \<le> m)"
  using assms(2)
proof (induction rule: walks.induct)
  case start
  have "i \<in> visited \<or> (i, 0) \<in> set ql"
    using assms(1) unfolding bfsInv_def by blast
  then show ?case
    by force
next
  case (step n c r)
  show ?case
  proof (cases "c \<in> visited")
    case True
    have lab: "lab c \<le> n"
      using assms(1) True step.hyps(1) unfolding bfsInv_def by blast
    have "otherEnd r c \<in> visited \<or> (\<exists>m \<le> lab c + 1. (otherEnd r c, m) \<in> set ql)"
      using assms(1) True step.hyps(2-4) unfolding bfsInv_def by blast
    then show ?thesis
      using lab by force
  next
    case False
    then obtain p where "p \<in> set ql" "snd p \<le> n"
      using step.IH by blast
    then show ?thesis
      by force
  qed
qed

lemma bfs_head_least:
  assumes "bfsInv s i ((c, mc) # rest) lab visited" "walks s i m e" "e \<notin> visited"
  shows "mc \<le> m"
proof -
  obtain p where p: "p \<in> set ((c, mc) # rest)" "snd p \<le> m"
    using bfs_frontier [OF assms(1,2)] assms(3) by blast
  have "sorted (map snd ((c, mc) # rest))"
    using assms(1) unfolding bfsInv_def by blast
  then have "mc \<le> snd p"
    using p(1) by auto
  then show ?thesis
    using p(2) by simp
qed

lemma bfsInv_skip:
  assumes "bfsInv s i ((c, mc) # rest) lab visited" "c \<in> visited"
  shows "bfsInv s i rest lab visited"
proof -
  have s: "sorted (map snd rest)"
    using assms(1) unfolding bfsInv_def by simp
  have q: "\<forall>p \<in> set rest. walks s i (snd p) (fst p) \<and> (\<forall>p' \<in> set rest. snd p \<le> snd p' + 1)"
    using assms(1) unfolding bfsInv_def by simp
  have v: "\<forall>d \<in> visited.
            (\<forall>m. walks s i m d \<longrightarrow> lab d \<le> m)
            \<and> (\<forall>r \<in> set (ropeSegments s).
                  (fromId r = d \<or> toId r = d) \<longrightarrow>
                    otherEnd r d \<notin> set (fixedIds s)
                    \<and> (otherEnd r d \<in> set (map l_id (loads s)) \<longrightarrow>
                          otherEnd r d \<in> visited
                          \<or> (\<exists>m \<le> lab d + 1. (otherEnd r d, m) \<in> set rest)))"
  proof (intro ballI conjI impI allI)
    fix d m assume "d \<in> visited" "walks s i m d"
    then show "lab d \<le> m"
      using assms(1) unfolding bfsInv_def by blast
  next
    fix d r assume "d \<in> visited" "r \<in> set (ropeSegments s)" "fromId r = d \<or> toId r = d"
    then show "otherEnd r d \<notin> set (fixedIds s)"
      using assms(1) unfolding bfsInv_def by blast
  next
    fix d r assume h: "d \<in> visited" "r \<in> set (ropeSegments s)" "fromId r = d \<or> toId r = d"
      "otherEnd r d \<in> set (map l_id (loads s))"
    have "otherEnd r d \<in> visited
          \<or> (\<exists>m \<le> lab d + 1. (otherEnd r d, m) \<in> set ((c, mc) # rest))"
      using assms(1) h unfolding bfsInv_def by blast
    then show "otherEnd r d \<in> visited \<or> (\<exists>m \<le> lab d + 1. (otherEnd r d, m) \<in> set rest)"
      using assms(2) by auto
  qed
  have st: "i \<in> visited \<or> (i, 0) \<in> set rest"
  proof -
    have "i \<in> visited \<or> (i, 0) \<in> set ((c, mc) # rest)"
      using assms(1) unfolding bfsInv_def by blast
    then show ?thesis
      using assms(2) by auto
  qed
  show ?thesis
    unfolding bfsInv_def using s q v st by blast
qed

lemma sorted_map_const: "sorted (map (\<lambda>d. k) xs)"
  by (induction xs) simp_all

lemma bfsInv_visit:
  assumes inv: "bfsInv s i ((c, mc) # rest) lab visited"
    and nv: "c \<notin> visited"
    and scan: "scanRopes (fixedIds s) (loads s) c
                 (filter (\<lambda>r. fromId r = c \<or> toId r = c) (ropeSegments s)) (map fst rest)
               = Inr q'"
  shows "\<exists>ql'. map fst ql' = q' \<and> bfsInv s i ql' (lab(c := mc)) (insert c visited)"
proof -
  let ?rs = "filter (\<lambda>r. fromId r = c \<or> toId r = c) (ropeSegments s)"
  let ?news = "filter (\<lambda>d. d \<in> set (map l_id (loads s))) (map (\<lambda>r. otherEnd r c) ?rs)"
  let ?ql = "rest @ map (\<lambda>d. (d, Suc mc)) ?news"
  let ?lab = "lab(c := mc)"
  from scanRopes_Inr [OF scan]
  have nofix: "\<forall>r \<in> set ?rs. otherEnd r c \<notin> set (fixedIds s)"
    and q': "q' = map fst rest @ ?news"
    by simp_all
  have fst: "map fst ?ql = q'"
    unfolding q' by (simp add: comp_def)
  have c: "walks s i mc c"
    using inv unfolding bfsInv_def by simp
  have srt: "sorted (map snd ((c, mc) # rest))"
    using inv unfolding bfsInv_def by blast
  have lo: "mc \<le> snd p" if "p \<in> set rest" for p
    using srt that by auto
  have hi: "snd p \<le> mc + 1" if "p \<in> set rest" for p
  proof -
    have "\<forall>p \<in> set ((c, mc) # rest). \<forall>p' \<in> set ((c, mc) # rest). snd p \<le> snd p' + 1"
      using inv unfolding bfsInv_def by blast
    then show ?thesis
      using that by force
  qed
  have new: "fst p \<in> set (map l_id (loads s)) \<and> snd p = Suc mc
             \<and> (\<exists>r \<in> set (ropeSegments s). (fromId r = c \<or> toId r = c) \<and> fst p = otherEnd r c)"
    if "p \<in> set (map (\<lambda>d. (d, Suc mc)) ?news)" for p
    using that by auto
  have bnd: "mc \<le> snd p \<and> snd p \<le> mc + 1" if "p \<in> set ?ql" for p
  proof -
    have "p \<in> set rest \<or> p \<in> set (map (\<lambda>d. (d, Suc mc)) ?news)"
      using that by simp
    then show ?thesis
    proof
      assume "p \<in> set rest"
      then show ?thesis
        using lo hi by simp
    next
      assume "p \<in> set (map (\<lambda>d. (d, Suc mc)) ?news)"
      from new [OF this] show ?thesis
        by simp
    qed
  qed
  have s: "sorted (map snd ?ql)"
  proof -
    have ms: "map snd ?ql = map snd rest @ map (\<lambda>d. Suc mc) ?news"
      by (simp add: comp_def)
    have a: "sorted (map snd rest)"
      using srt by simp
    have b: "sorted (map (\<lambda>d. Suc mc) ?news)"
      by (rule sorted_map_const)
    have "\<forall>x \<in> set (map snd rest). \<forall>y \<in> set (map (\<lambda>d. Suc mc) ?news). x \<le> y"
      using hi by auto
    then show ?thesis
      unfolding ms sorted_append using a b by blast
  qed
  have q: "\<forall>p \<in> set ?ql. walks s i (snd p) (fst p) \<and> (\<forall>p' \<in> set ?ql. snd p \<le> snd p' + 1)"
  proof (intro ballI conjI)
    fix p assume "p \<in> set ?ql"
    then have "p \<in> set rest \<or> p \<in> set (map (\<lambda>d. (d, Suc mc)) ?news)"
      by simp
    then show "walks s i (snd p) (fst p)"
    proof
      assume "p \<in> set rest"
      then show ?thesis
        using inv unfolding bfsInv_def by simp
    next
      assume "p \<in> set (map (\<lambda>d. (d, Suc mc)) ?news)"
      from new [OF this] obtain r where r: "r \<in> set (ropeSegments s)"
        "fromId r = c \<or> toId r = c" "fst p = otherEnd r c"
        and l: "fst p \<in> set (map l_id (loads s))" and m: "snd p = Suc mc"
        by blast
      have "walks s i (Suc mc) (otherEnd r c)"
        using walks.step [OF c r(1,2)] l r(3) by simp
      then show ?thesis
        using r(3) m by simp
    qed
  next
    fix p p' assume "p \<in> set ?ql" "p' \<in> set ?ql"
    then show "snd p \<le> snd p' + 1"
      using bnd [of p] bnd [of p'] by simp
  qed
  have v: "\<forall>d \<in> insert c visited.
            (\<forall>m. walks s i m d \<longrightarrow> ?lab d \<le> m)
            \<and> (\<forall>r \<in> set (ropeSegments s).
                  (fromId r = d \<or> toId r = d) \<longrightarrow>
                    otherEnd r d \<notin> set (fixedIds s)
                    \<and> (otherEnd r d \<in> set (map l_id (loads s)) \<longrightarrow>
                          otherEnd r d \<in> insert c visited
                          \<or> (\<exists>m \<le> ?lab d + 1. (otherEnd r d, m) \<in> set ?ql)))"
  proof
    fix d assume d: "d \<in> insert c visited"
    show "(\<forall>m. walks s i m d \<longrightarrow> ?lab d \<le> m)
            \<and> (\<forall>r \<in> set (ropeSegments s).
                  (fromId r = d \<or> toId r = d) \<longrightarrow>
                    otherEnd r d \<notin> set (fixedIds s)
                    \<and> (otherEnd r d \<in> set (map l_id (loads s)) \<longrightarrow>
                          otherEnd r d \<in> insert c visited
                          \<or> (\<exists>m \<le> ?lab d + 1. (otherEnd r d, m) \<in> set ?ql)))"
    proof (cases "d = c")
      case True
      have least: "\<forall>m. walks s i m c \<longrightarrow> ?lab c \<le> m"
        using bfs_head_least [OF inv _ nv] by simp
      have ropes: "\<forall>r \<in> set (ropeSegments s).
                  (fromId r = c \<or> toId r = c) \<longrightarrow>
                    otherEnd r c \<notin> set (fixedIds s)
                    \<and> (otherEnd r c \<in> set (map l_id (loads s)) \<longrightarrow>
                          otherEnd r c \<in> insert c visited
                          \<or> (\<exists>m \<le> ?lab c + 1. (otherEnd r c, m) \<in> set ?ql))"
      proof (intro ballI impI conjI)
        fix r assume r: "r \<in> set (ropeSegments s)" "fromId r = c \<or> toId r = c"
        then have "r \<in> set ?rs"
          by simp
        then show "otherEnd r c \<notin> set (fixedIds s)"
          using nofix by blast
      next
        fix r assume r: "r \<in> set (ropeSegments s)" "fromId r = c \<or> toId r = c"
          and l: "otherEnd r c \<in> set (map l_id (loads s))"
        have "r \<in> set ?rs"
          using r by simp
        then have "otherEnd r c \<in> set (map (\<lambda>r. otherEnd r c) ?rs)"
          by (simp only: set_map) (rule imageI)
        then have "otherEnd r c \<in> set ?news"
          using l by simp
        then have "(otherEnd r c, Suc mc) \<in> set (map (\<lambda>d. (d, Suc mc)) ?news)"
          by (simp only: set_map) (rule imageI)
        then have "(otherEnd r c, Suc mc) \<in> set ?ql"
          by simp
        moreover have "Suc mc \<le> ?lab c + 1"
          by simp
        ultimately have "\<exists>m \<le> ?lab c + 1. (otherEnd r c, m) \<in> set ?ql"
          by blast
        then show "otherEnd r c \<in> insert c visited
                   \<or> (\<exists>m \<le> ?lab c + 1. (otherEnd r c, m) \<in> set ?ql)"
          by (rule disjI2)
      qed
      show ?thesis
        unfolding True by (intro conjI least ropes)
    next
      case False
      then have dv: "d \<in> visited"
        using d by simp
      have lab: "?lab d = lab d"
        using False by simp
      have least: "\<forall>m. walks s i m d \<longrightarrow> ?lab d \<le> m"
        unfolding lab using inv dv unfolding bfsInv_def by blast
      have ropes: "\<forall>r \<in> set (ropeSegments s).
                  (fromId r = d \<or> toId r = d) \<longrightarrow>
                    otherEnd r d \<notin> set (fixedIds s)
                    \<and> (otherEnd r d \<in> set (map l_id (loads s)) \<longrightarrow>
                          otherEnd r d \<in> insert c visited
                          \<or> (\<exists>m \<le> ?lab d + 1. (otherEnd r d, m) \<in> set ?ql))"
      proof (intro ballI impI conjI)
        fix r assume r: "r \<in> set (ropeSegments s)" "fromId r = d \<or> toId r = d"
        then show "otherEnd r d \<notin> set (fixedIds s)"
          using inv dv unfolding bfsInv_def by blast
      next
        fix r assume r: "r \<in> set (ropeSegments s)" "fromId r = d \<or> toId r = d"
          and l: "otherEnd r d \<in> set (map l_id (loads s))"
        have "otherEnd r d \<in> visited
              \<or> (\<exists>m \<le> lab d + 1. (otherEnd r d, m) \<in> set ((c, mc) # rest))"
          using inv dv r l unfolding bfsInv_def by blast
        then show "otherEnd r d \<in> insert c visited
                   \<or> (\<exists>m \<le> ?lab d + 1. (otherEnd r d, m) \<in> set ?ql)"
        proof
          assume "otherEnd r d \<in> visited"
          then show ?thesis
            by simp
        next
          assume "\<exists>m \<le> lab d + 1. (otherEnd r d, m) \<in> set ((c, mc) # rest)"
          then obtain m where m: "m \<le> lab d + 1" "(otherEnd r d, m) \<in> set ((c, mc) # rest)"
            by blast
          show ?thesis
          proof (cases "otherEnd r d = c")
            case True
            then show ?thesis
              by simp
          next
            case False
            then have "(otherEnd r d, m) \<in> set ?ql"
              using m(2) by simp
            then have "\<exists>m \<le> ?lab d + 1. (otherEnd r d, m) \<in> set ?ql"
              unfolding lab using m(1) by blast
            then show ?thesis
              by (rule disjI2)
          qed
        qed
      qed
      show ?thesis
        by (intro conjI least ropes)
    qed
  qed
  have st: "i \<in> insert c visited \<or> (i, 0) \<in> set ?ql"
  proof -
    have "i \<in> visited \<or> (i, 0) \<in> set ((c, mc) # rest)"
      using inv unfolding bfsInv_def by blast
    then show ?thesis
      by auto
  qed
  have "bfsInv s i ?ql ?lab (insert c visited)"
    unfolding bfsInv_def by (intro conjI s q v st)
  with fst show ?thesis
    by blast
qed

lemma visited_no_exit:
  assumes "bfsInv s i ql lab visited" "exitAt s c r"
  shows "c \<notin> visited"
  using assms unfolding bfsInv_def exitAt_def by blast

lemma getSide_loop_bfs:
  "sideMeasure s (map fst ql) visited \<le> n \<Longrightarrow> bfsInv s i ql lab visited \<Longrightarrow>
     (\<exists>m c r. reaches s i m c r \<and> firstExit s c = Some r
         \<and> (\<forall>m' c' r'. reaches s i m' c' r' \<longrightarrow> m \<le> m')
         \<and> getSide_loop s (map fst ql) visited = Some (sideAt r (otherEnd r c)))
     \<or> (getSide_loop s (map fst ql) visited = Some 0 \<and> \<not> (\<exists>m c r. reaches s i m c r))"
proof (induction n arbitrary: ql lab visited rule: less_induct)
  case (less n)
  from less.prems show ?case
  proof (induction ql)
    case Nil
    have "\<not> (\<exists>m c r. reaches s i m c r)"
    proof
      assume "\<exists>m c r. reaches s i m c r"
      then obtain m c r where h: "walks s i m c" "exitAt s c r"
        unfolding reaches_def by blast
      have "c \<notin> visited"
        using visited_no_exit [OF Nil.prems(2) h(2)] .
      then show False
        using bfs_frontier [OF Nil.prems(2) h(1)] by simp
    qed
    moreover have "getSide_loop s (map fst []) visited = Some 0"
      by (subst getSide_loop.simps) simp
    ultimately show ?case
      by blast
  next
    case (Cons p rest)
    obtain c mc where p: "p = (c, mc)"
      by (cases p)
    have inv: "bfsInv s i ((c, mc) # rest) lab visited"
      using Cons.prems(2) p by simp
    show ?case
    proof (cases "c \<in> visited")
      case True
      have m: "sideMeasure s (map fst rest) visited \<le> n"
        using sideMeasure_skip [of s "map fst rest" visited c] Cons.prems(1) p by simp
      have eq: "getSide_loop s (map fst (p # rest)) visited
                = getSide_loop s (map fst rest) visited"
        using True p by (subst getSide_loop.simps) simp
      from Cons.IH [OF m bfsInv_skip [OF inv True]] show ?thesis
        unfolding eq .
    next
      case False
      let ?rs = "filter (\<lambda>r. fromId r = c \<or> toId r = c) (ropeSegments s)"
      let ?scan = "scanRopes (fixedIds s) (loads s) c ?rs (map fst rest)"
      have c: "walks s i mc c"
        using inv unfolding bfsInv_def by simp
      show ?thesis
      proof (cases ?scan)
        case (Inl v)
        from scanRopes_Inl [OF Inl] obtain r where
          r: "find (\<lambda>r. otherEnd r c \<in> set (fixedIds s)) ?rs = Some r"
            "v = sideAt r (otherEnd r c)"
          by blast
        have fe: "firstExit s c = Some r"
          using r(1) unfolding firstExit_def find_filter .
        then have ex: "exitAt s c r"
          unfolding firstExit_def exitAt_def find_Some_iff by force
        have "reaches s i mc c r"
          using c ex by (simp add: reaches_def)
        moreover have "\<forall>m' c' r'. reaches s i m' c' r' \<longrightarrow> mc \<le> m'"
        proof (intro allI impI)
          fix m' c' r' assume "reaches s i m' c' r'"
          then have h: "walks s i m' c'" "exitAt s c' r'"
            unfolding reaches_def by simp_all
          show "mc \<le> m'"
            using bfs_head_least [OF inv h(1) visited_no_exit [OF inv h(2)]] .
        qed
        moreover have "getSide_loop s (map fst (p # rest)) visited
                       = Some (sideAt r (otherEnd r c))"
          using False Inl p r(2) by (subst getSide_loop.simps) simp
        ultimately show ?thesis
          using fe by blast
      next
        case (Inr q')
        have eq: "getSide_loop s (map fst (p # rest)) visited
                  = getSide_loop s q' (insert c visited)"
          using False Inr p by (subst getSide_loop.simps) simp
        from bfsInv_visit [OF inv False Inr] obtain ql' where
          ql': "map fst ql' = q'" "bfsInv s i ql' (lab(c := mc)) (insert c visited)"
          by blast
        have "set q' \<subseteq> set (map fst rest) \<union> set (map l_id (loads s))"
          using scanRopes_queue [OF Inr] .
        then have "sideMeasure s q' (insert c visited)
                   < sideMeasure s (c # map fst rest) visited"
          by (rule sideMeasure_visit [OF False])
        then have m: "sideMeasure s (map fst ql') (insert c visited) < n"
          using Cons.prems(1) p ql'(1) by simp
        from less.IH [OF m order_refl ql'(2)] show ?thesis
          unfolding eq ql'(1) .
      qed
    qed
  qed
qed

lemma getSide_bfs:
  "(\<exists>m c r. reaches s i m c r \<and> firstExit s c = Some r
       \<and> (\<forall>m' c' r'. reaches s i m' c' r' \<longrightarrow> m \<le> m')
       \<and> getSide s i = Some (sideAt r (otherEnd r c)))
   \<or> (getSide s i = Some 0 \<and> \<not> (\<exists>m c r. reaches s i m c r))"
proof -
  have "bfsInv s i [(i, 0)] (\<lambda>c. 0) {}"
    by (simp add: bfsInv_def walks.start)
  from getSide_loop_bfs [OF order_refl this] show ?thesis
    unfolding getSide_def by simp
qed

lemma getSide_nearest:
  "(\<exists>n c r. nearestExit s i n c r \<and> getSide s i = Some (sideAt r (otherEnd r c)))
   \<or> (getSide s i = Some 0 \<and> \<not> (\<exists>n c r. reaches s i n c r))"
  using getSide_bfs [of s i] unfolding nearestExit_def by blast

lemma walks_zero: "walks s i 0 c \<Longrightarrow> c = i"
  by (erule walks.cases) simp_all

lemma firstExit_exitAt: "firstExit s c = Some r \<Longrightarrow> exitAt s c r"
  unfolding firstExit_def exitAt_def find_Some_iff by force

lemma getSide_firstExit:
  assumes "firstExit s i = Some r"
  shows "getSide s i = Some (sideAt r (otherEnd r i))"
proof -
  have here: "reaches s i 0 i r"
    using firstExit_exitAt [OF assms] by (simp add: reaches_def walks.start)
  then have "\<exists>n c r. reaches s i n c r"
    by blast
  then obtain n c r' where n: "nearestExit s i n c r'"
    and g: "getSide s i = Some (sideAt r' (otherEnd r' c))"
    using getSide_nearest [of s i] by blast
  have "n \<le> 0"
    using n here unfolding nearestExit_def by blast
  then have "walks s i 0 c"
    using n unfolding nearestExit_def reaches_def by simp
  then have "c = i"
    by (rule walks_zero)
  then have "r' = r"
    using n assms unfolding nearestExit_def by simp
  then show ?thesis
    using g \<open>c = i\<close> by simp
qed

text \<open>
  C7, amended. A walk from a load goes from load to load along ropes; it reaches a fixed
  pulley at a load that has a rope to one, and the side there is the tangent side recorded
  on that rope at the pulley, \<open>-1\<close> when none is recorded. Where a walk from the load
  reaches a fixed pulley, \<open>getSide\<close> returns the side at a nearest one: at a load than which
  no load with a rope to a fixed pulley is fewer ropes away from the start, on the first
  rope there, in the order of \<open>ropeSegments\<close>, that leads to a fixed pulley; so when the
  load itself has a rope to a fixed pulley, \<open>getSide\<close> returns the side on the first such
  rope. Where no walk reaches a fixed pulley, \<open>getSide\<close> returns \<open>0\<close>. With no movable
  pulleys, the partition returns groups \<open>A\<close> and \<open>B\<close> such that, for every load: it is in
  \<open>A\<close> exactly when it has a rope and \<open>getSide\<close> gives \<open>-1\<close> or \<open>0\<close>, and in \<open>B\<close> exactly when
  it has a rope and \<open>getSide\<close> gives \<open>1\<close> (so a load with no rope is in neither group); a
  load with a rope whose nearest fixed pulleys all have side \<open>-1\<close> or \<open>0\<close> is in \<open>A\<close> and not
  in \<open>B\<close>, one whose nearest fixed pulleys all have side \<open>1\<close> is in \<open>B\<close> and not in \<open>A\<close>; and
  a load with a rope from which no walk reaches a fixed pulley is in \<open>A\<close>, not in neither
  group.
\<close>

theorem side_partition:
  assumes "movablePulleys s = []"
  shows "\<exists>A B. loadGroups s = Some (A, B)
         \<and> (\<forall>l \<in> set (loads s).
              (l \<in> set A \<longleftrightarrow> l \<in> set (connectedLoads s)
                 \<and> (getSide s (l_id l) = Some (- 1) \<or> getSide s (l_id l) = Some 0))
            \<and> (l \<in> set B \<longleftrightarrow> l \<in> set (connectedLoads s) \<and> getSide s (l_id l) = Some 1)
            \<and> ((\<exists>n c r. nearestExit s (l_id l) n c r
                        \<and> getSide s (l_id l) = Some (sideAt r (otherEnd r c)))
               \<or> (getSide s (l_id l) = Some 0 \<and> \<not> (\<exists>n c r. reaches s (l_id l) n c r)))
            \<and> (\<forall>r. firstExit s (l_id l) = Some r
                  \<longrightarrow> getSide s (l_id l) = Some (sideAt r (otherEnd r (l_id l))))
            \<and> (l \<in> set (connectedLoads s) \<and> \<not> (\<exists>n c r. reaches s (l_id l) n c r)
                  \<longrightarrow> l \<in> set A \<and> l \<notin> set B)
            \<and> (l \<in> set (connectedLoads s) \<and> (\<exists>n c r. reaches s (l_id l) n c r)
                  \<and> (\<forall>n c r. nearestExit s (l_id l) n c r
                         \<longrightarrow> sideAt r (otherEnd r c) = - 1 \<or> sideAt r (otherEnd r c) = 0)
                  \<longrightarrow> l \<in> set A \<and> l \<notin> set B)
            \<and> (l \<in> set (connectedLoads s) \<and> (\<exists>n c r. reaches s (l_id l) n c r)
                  \<and> (\<forall>n c r. nearestExit s (l_id l) n c r \<longrightarrow> sideAt r (otherEnd r c) = 1)
                  \<longrightarrow> l \<in> set B \<and> l \<notin> set A))"
proof -
  let ?A = "filter (\<lambda>l. getSide s (l_id l) = Some (- 1) \<or> getSide s (l_id l) = Some 0)
              (connectedLoads s)"
  let ?B = "filter (\<lambda>l. getSide s (l_id l) = Some 1) (connectedLoads s)"
  have g: "loadGroups s = Some (?A, ?B)"
    using assms by (simp add: loadGroups_def movableIds_def assignSides_eq)
  have a: "l \<in> set ?A \<longleftrightarrow> l \<in> set (connectedLoads s)
             \<and> (getSide s (l_id l) = Some (- 1) \<or> getSide s (l_id l) = Some 0)" for l
    by simp
  have b: "l \<in> set ?B \<longleftrightarrow> l \<in> set (connectedLoads s) \<and> getSide s (l_id l) = Some 1" for l
    by simp
  have w: "(\<exists>n c r. nearestExit s i n c r \<and> getSide s i = Some (sideAt r (otherEnd r c)))
           \<or> (getSide s i = Some 0 \<and> \<not> (\<exists>n c r. reaches s i n c r))" for i
    by (rule getSide_nearest)
  have d: "\<forall>r. firstExit s i = Some r \<longrightarrow> getSide s i = Some (sideAt r (otherEnd r i))" for i
    using getSide_firstExit [of s i] by blast
  have n: "l \<in> set (connectedLoads s) \<and> \<not> (\<exists>n c r. reaches s (l_id l) n c r)
             \<longrightarrow> l \<in> set ?A \<and> l \<notin> set ?B" for l
  proof
    assume h: "l \<in> set (connectedLoads s) \<and> \<not> (\<exists>n c r. reaches s (l_id l) n c r)"
    then have "\<not> (\<exists>n c r. nearestExit s (l_id l) n c r)"
      unfolding nearestExit_def by blast
    then have "getSide s (l_id l) = Some 0"
      using w [of "l_id l"] by blast
    then show "l \<in> set ?A \<and> l \<notin> set ?B"
      using h by simp
  qed
  have pa: "l \<in> set (connectedLoads s) \<and> (\<exists>n c r. reaches s (l_id l) n c r)
                  \<and> (\<forall>n c r. nearestExit s (l_id l) n c r
                         \<longrightarrow> sideAt r (otherEnd r c) = - 1 \<or> sideAt r (otherEnd r c) = 0)
                  \<longrightarrow> l \<in> set ?A \<and> l \<notin> set ?B" for l
  proof
    assume h: "l \<in> set (connectedLoads s) \<and> (\<exists>n c r. reaches s (l_id l) n c r)
                  \<and> (\<forall>n c r. nearestExit s (l_id l) n c r
                         \<longrightarrow> sideAt r (otherEnd r c) = - 1 \<or> sideAt r (otherEnd r c) = 0)"
    then obtain n c r where "nearestExit s (l_id l) n c r"
      "getSide s (l_id l) = Some (sideAt r (otherEnd r c))"
      using w [of "l_id l"] by blast
    then have "getSide s (l_id l) = Some (- 1) \<or> getSide s (l_id l) = Some 0"
      using h by auto
    then show "l \<in> set ?A \<and> l \<notin> set ?B"
      using h by auto
  qed
  have pb: "l \<in> set (connectedLoads s) \<and> (\<exists>n c r. reaches s (l_id l) n c r)
                  \<and> (\<forall>n c r. nearestExit s (l_id l) n c r \<longrightarrow> sideAt r (otherEnd r c) = 1)
                  \<longrightarrow> l \<in> set ?B \<and> l \<notin> set ?A" for l
  proof
    assume h: "l \<in> set (connectedLoads s) \<and> (\<exists>n c r. reaches s (l_id l) n c r)
                  \<and> (\<forall>n c r. nearestExit s (l_id l) n c r \<longrightarrow> sideAt r (otherEnd r c) = 1)"
    then obtain n c r where "nearestExit s (l_id l) n c r"
      "getSide s (l_id l) = Some (sideAt r (otherEnd r c))"
      using w [of "l_id l"] by blast
    then have "getSide s (l_id l) = Some 1"
      using h by auto
    then show "l \<in> set ?B \<and> l \<notin> set ?A"
      using h by simp
  qed
  have "\<forall>l \<in> set (loads s).
              (l \<in> set ?A \<longleftrightarrow> l \<in> set (connectedLoads s)
                 \<and> (getSide s (l_id l) = Some (- 1) \<or> getSide s (l_id l) = Some 0))
            \<and> (l \<in> set ?B \<longleftrightarrow> l \<in> set (connectedLoads s) \<and> getSide s (l_id l) = Some 1)
            \<and> ((\<exists>n c r. nearestExit s (l_id l) n c r
                        \<and> getSide s (l_id l) = Some (sideAt r (otherEnd r c)))
               \<or> (getSide s (l_id l) = Some 0 \<and> \<not> (\<exists>n c r. reaches s (l_id l) n c r)))
            \<and> (\<forall>r. firstExit s (l_id l) = Some r
                  \<longrightarrow> getSide s (l_id l) = Some (sideAt r (otherEnd r (l_id l))))
            \<and> (l \<in> set (connectedLoads s) \<and> \<not> (\<exists>n c r. reaches s (l_id l) n c r)
                  \<longrightarrow> l \<in> set ?A \<and> l \<notin> set ?B)
            \<and> (l \<in> set (connectedLoads s) \<and> (\<exists>n c r. reaches s (l_id l) n c r)
                  \<and> (\<forall>n c r. nearestExit s (l_id l) n c r
                         \<longrightarrow> sideAt r (otherEnd r c) = - 1 \<or> sideAt r (otherEnd r c) = 0)
                  \<longrightarrow> l \<in> set ?A \<and> l \<notin> set ?B)
            \<and> (l \<in> set (connectedLoads s) \<and> (\<exists>n c r. reaches s (l_id l) n c r)
                  \<and> (\<forall>n c r. nearestExit s (l_id l) n c r \<longrightarrow> sideAt r (otherEnd r c) = 1)
                  \<longrightarrow> l \<in> set ?B \<and> l \<notin> set ?A)"
    by (intro ballI conjI a b w d n pa pb)
  with g show ?thesis
    by (intro exI [of _ ?A] exI [of _ ?B] conjI)
qed

lemma overPulley_sides:
  "getSide overPulley ''load-1'' = Some (- 1)" "getSide overPulley ''load-2'' = Some 1"
  by (simp_all add: getSide_def getSide_loop.simps fixedIds_def overPulley_def
      INITIAL_SANDBOX_def Let_def)

lemma overPulley_connected: "connectedLoads overPulley = [block1, block2, block4]"
  by (simp add: connectedLoads_def overPulley_def INITIAL_SANDBOX_def block1_def block2_def
      block3_def block4_def)

lemma overPulley_walks4: "walks overPulley ''load-4'' n c \<Longrightarrow> c = ''load-4''"
  by (induction rule: walks.induct)
     (auto simp: otherEnd_def overPulley_def INITIAL_SANDBOX_def block1_def block2_def
        block3_def block4_def)

lemma overPulley_no_reach4: "\<not> (\<exists>n c r. reaches overPulley ''load-4'' n c r)"
proof
  assume "\<exists>n c r. reaches overPulley ''load-4'' n c r"
  then obtain n c r where h: "reaches overPulley ''load-4'' n c r"
    by blast
  then have "c = ''load-4''"
    using overPulley_walks4 unfolding reaches_def by blast
  then show False
    using h
    by (auto simp: reaches_def exitAt_def otherEnd_def fixedIds_def overPulley_def
        INITIAL_SANDBOX_def)
qed

lemma chain_walks: "walks chain ''load-1'' n c \<Longrightarrow> c = ''load-1'' \<or> c = ''load-2''"
  by (induction rule: walks.induct)
     (auto simp: chain_def INITIAL_SANDBOX_def block1_def block2_def)

lemma chain_reaches_some:
  "reaches chain ''load-1'' (Suc 0) ''load-2''
     \<lparr>r_id = ''rope-2'', fromId = ''load-2'', toId = ''fixed-1'', r_type = PulleyRope,
       fromSide = Some 0, toSide = Some 1\<rparr>"
proof -
  let ?r1 = "\<lparr>r_id = ''rope-1'', fromId = ''load-1'', toId = ''load-2'', r_type = Direct,
          fromSide = Some 0, toSide = Some 0\<rparr>"
  have "walks chain ''load-1'' (Suc 0) (otherEnd ?r1 ''load-1'')"
    by (rule walks.step [OF walks.start])
       (simp_all add: otherEnd_def chain_def INITIAL_SANDBOX_def block1_def block2_def)
  then have "walks chain ''load-1'' (Suc 0) ''load-2''"
    by (simp add: otherEnd_def)
  then show ?thesis
    by (simp add: reaches_def exitAt_def otherEnd_def fixedIds_def chain_def INITIAL_SANDBOX_def)
qed

lemma chain_reaches_side:
  "reaches chain ''load-1'' n c r \<Longrightarrow> sideAt r (otherEnd r c) = 1"
proof -
  assume h: "reaches chain ''load-1'' n c r"
  then have "c = ''load-1'' \<or> c = ''load-2''"
    using chain_walks unfolding reaches_def by blast
  then show ?thesis
    using h
    by (auto simp: reaches_def exitAt_def otherEnd_def sideAt_def fixedIds_def chain_def
        INITIAL_SANDBOX_def split: if_splits)
qed

lemma chain_connected: "connectedLoads chain = [block1, block2]"
  by (simp add: connectedLoads_def chain_def INITIAL_SANDBOX_def block1_def block2_def)

lemma fork_connected: "connectedLoads fork = [block1, block2, block3, block4]"
  by (simp add: connectedLoads_def fork_def INITIAL_SANDBOX_def block1_def block2_def
      block3_def block4_def)

lemma fork_walks1:
  "walks fork ''load-1'' (Suc 0) c \<Longrightarrow> c = ''load-2'' \<or> c = ''load-3''"
proof (erule walks.cases)
  assume "Suc 0 = 0"
  then show ?thesis by simp
next
  fix n c' r
  assume h: "Suc 0 = Suc n" "c = otherEnd r c'" "walks fork ''load-1'' n c'"
    "r \<in> set (ropeSegments fork)" "fromId r = c' \<or> toId r = c'"
  then have "c' = ''load-1''"
    using walks_zero [of fork "''load-1''" c'] by simp
  then show ?thesis
    using h(2,4,5) by (auto simp: otherEnd_def fork_def INITIAL_SANDBOX_def)
qed

lemma fork_reaches_some:
  "reaches fork ''load-1'' (Suc 0) ''load-2''
     \<lparr>r_id = ''rope-5'', fromId = ''load-2'', toId = ''fixed-1'', r_type = PulleyRope,
       fromSide = Some 0, toSide = Some (- 1)\<rparr>"
proof -
  let ?r4 = "\<lparr>r_id = ''rope-4'', fromId = ''load-1'', toId = ''load-2'', r_type = Direct,
          fromSide = Some 0, toSide = Some 0\<rparr>"
  have "walks fork ''load-1'' (Suc 0) (otherEnd ?r4 ''load-1'')"
    by (rule walks.step [OF walks.start])
       (simp_all add: otherEnd_def fork_def INITIAL_SANDBOX_def block1_def block2_def
          block3_def block4_def)
  then have "walks fork ''load-1'' (Suc 0) ''load-2''"
    by (simp add: otherEnd_def)
  then show ?thesis
    by (simp add: reaches_def exitAt_def otherEnd_def fixedIds_def fork_def INITIAL_SANDBOX_def)
qed

lemma fork_far_exit:
  "reaches fork ''load-1'' (Suc (Suc 0)) ''load-4''
     \<lparr>r_id = ''rope-3'', fromId = ''load-4'', toId = ''fixed-1'', r_type = PulleyRope,
       fromSide = Some 0, toSide = Some 1\<rparr>"
proof -
  let ?r1 = "\<lparr>r_id = ''rope-1'', fromId = ''load-1'', toId = ''load-3'', r_type = Direct,
          fromSide = Some 0, toSide = Some 0\<rparr>"
  let ?r2 = "\<lparr>r_id = ''rope-2'', fromId = ''load-3'', toId = ''load-4'', r_type = Direct,
          fromSide = Some 0, toSide = Some 0\<rparr>"
  have "walks fork ''load-1'' (Suc 0) (otherEnd ?r1 ''load-1'')"
    by (rule walks.step [OF walks.start])
       (simp_all add: otherEnd_def fork_def INITIAL_SANDBOX_def block1_def block2_def
          block3_def block4_def)
  then have "walks fork ''load-1'' (Suc 0) ''load-3''"
    by (simp add: otherEnd_def)
  then have "walks fork ''load-1'' (Suc (Suc 0)) (otherEnd ?r2 ''load-3'')"
    by (rule walks.step)
       (simp_all add: otherEnd_def fork_def INITIAL_SANDBOX_def block1_def block2_def
          block3_def block4_def)
  then have "walks fork ''load-1'' (Suc (Suc 0)) ''load-4''"
    by (simp add: otherEnd_def)
  then show ?thesis
    by (simp add: reaches_def exitAt_def otherEnd_def fixedIds_def fork_def INITIAL_SANDBOX_def)
qed

lemma fork_nearest_side:
  assumes "nearestExit fork ''load-1'' n c r"
  shows "sideAt r (otherEnd r c) = - 1"
proof -
  have w: "walks fork ''load-1'' n c" and e: "exitAt fork c r"
    using assms unfolding nearestExit_def reaches_def by simp_all
  have "n \<le> Suc 0"
    using assms fork_reaches_some unfolding nearestExit_def by blast
  then have "n = 0 \<or> n = Suc 0"
    by auto
  then have "c = ''load-1'' \<or> c = ''load-2'' \<or> c = ''load-3''"
    using w walks_zero [of fork "''load-1''" c] fork_walks1 [of c] by auto
  then show ?thesis
    using e
    by (auto simp: exitAt_def otherEnd_def sideAt_def fixedIds_def fork_def
        INITIAL_SANDBOX_def split: if_splits)
qed

lemma fork_side: "getSide fork ''load-1'' = Some (- 1)"
  by (simp add: getSide_def getSide_loop.simps fixedIds_def fork_def
      INITIAL_SANDBOX_def block1_def block2_def block3_def block4_def Let_def)

theorem side_partition_witness:
  "(\<exists>A B. loadGroups overPulley = Some (A, B)
      \<and> block1 \<in> set A \<and> block2 \<in> set B \<and> block3 \<notin> set A \<and> block3 \<notin> set B
      \<and> block4 \<in> set A)
   \<and> (\<exists>A B. loadGroups chain = Some (A, B) \<and> block1 \<in> set B \<and> block1 \<notin> set A)
   \<and> (\<exists>A B. loadGroups fork = Some (A, B) \<and> block1 \<in> set A \<and> block1 \<notin> set B)"
proof -
  have mo: "movablePulleys overPulley = []"
    by (simp add: overPulley_def INITIAL_SANDBOX_def)
  have mc: "movablePulleys chain = []"
    by (simp add: chain_def INITIAL_SANDBOX_def)
  have mf: "movablePulleys fork = []"
    by (simp add: fork_def INITIAL_SANDBOX_def)
  have ids: "l_id block1 = ''load-1''" "l_id block2 = ''load-2''" "l_id block4 = ''load-4''"
    by (simp_all add: block1_def block2_def block4_def)
  have ne: "block3 \<noteq> block1" "block3 \<noteq> block2" "block3 \<noteq> block4"
    by (simp_all add: block1_def block2_def block3_def block4_def)
  have lo: "loads overPulley = [block1, block2, block3, block4]"
    by (simp add: overPulley_def)
  have lc: "loads chain = [block1, block2]"
    by (simp add: chain_def)
  have lf: "loads fork = [block1, block2, block3, block4]"
    by (simp add: fork_def)
  have over: "\<exists>A B. loadGroups overPulley = Some (A, B)
      \<and> block1 \<in> set A \<and> block2 \<in> set B \<and> block3 \<notin> set A \<and> block3 \<notin> set B
      \<and> block4 \<in> set A"
    apply (rule exE [OF side_partition [OF mo]])
    apply (erule exE)
    apply (erule conjE)
    subgoal premises p for A B
    proof -
      have m: "block1 \<in> set (loads overPulley)" "block2 \<in> set (loads overPulley)"
        "block3 \<in> set (loads overPulley)" "block4 \<in> set (loads overPulley)"
        by (simp_all add: lo)
      note p1 = bspec [OF p(2) m(1)] and p2 = bspec [OF p(2) m(2)]
        and p3 = bspec [OF p(2) m(3)] and p4 = bspec [OF p(2) m(4)]
      have b1: "block1 \<in> set A"
        using p1 [THEN conjunct1] by (simp add: overPulley_connected ids overPulley_sides)
      have b2: "block2 \<in> set B"
        using p2 [THEN conjunct2, THEN conjunct1]
        by (simp add: overPulley_connected ids overPulley_sides)
      have b3: "block3 \<notin> set A" "block3 \<notin> set B"
        using p3 [THEN conjunct1] p3 [THEN conjunct2, THEN conjunct1] ne
        by (simp_all add: overPulley_connected)
      have b4: "block4 \<in> set A"
        using p4 [THEN conjunct2, THEN conjunct2, THEN conjunct2, THEN conjunct2, THEN conjunct1]
          overPulley_no_reach4
        by (simp add: overPulley_connected ids)
      show ?thesis
        using p(1) b1 b2 b3 b4 by (intro exI [of _ A] exI [of _ B]) simp
    qed
    done
  have ch: "\<exists>A B. loadGroups chain = Some (A, B) \<and> block1 \<in> set B \<and> block1 \<notin> set A"
    apply (rule exE [OF side_partition [OF mc]])
    apply (erule exE)
    apply (erule conjE)
    subgoal premises p for A B
    proof -
      have m: "block1 \<in> set (loads chain)"
        by (simp add: lc)
      have "\<exists>n c r. reaches chain ''load-1'' n c r"
        using chain_reaches_some by blast
      moreover have "\<forall>n c r. nearestExit chain ''load-1'' n c r
                       \<longrightarrow> sideAt r (otherEnd r c) = 1"
        using chain_reaches_side unfolding nearestExit_def by blast
      ultimately have "block1 \<in> set B \<and> block1 \<notin> set A"
        using bspec [OF p(2) m, THEN conjunct2, THEN conjunct2, THEN conjunct2, THEN conjunct2,
            THEN conjunct2, THEN conjunct2]
        by (simp add: chain_connected ids)
      then show ?thesis
        using p(1) by (intro exI [of _ A] exI [of _ B]) simp
    qed
    done
  have fk: "\<exists>A B. loadGroups fork = Some (A, B) \<and> block1 \<in> set A \<and> block1 \<notin> set B"
    apply (rule exE [OF side_partition [OF mf]])
    apply (erule exE)
    apply (erule conjE)
    subgoal premises p for A B
    proof -
      have m: "block1 \<in> set (loads fork)"
        by (simp add: lf)
      have "\<exists>n c r. reaches fork ''load-1'' n c r"
        using fork_reaches_some by blast
      moreover have "\<forall>n c r. nearestExit fork ''load-1'' n c r
                       \<longrightarrow> sideAt r (otherEnd r c) = - 1 \<or> sideAt r (otherEnd r c) = 0"
        using fork_nearest_side by blast
      ultimately have "block1 \<in> set A \<and> block1 \<notin> set B"
        using bspec [OF p(2) m, THEN conjunct2, THEN conjunct2, THEN conjunct2, THEN conjunct2,
            THEN conjunct2, THEN conjunct1]
        by (simp add: fork_connected ids)
      then show ?thesis
        using p(1) by (intro exI [of _ A] exI [of _ B]) simp
    qed
    done
  show ?thesis
    using over ch fk by (intro conjI)
qed

end
